theory Spec2Isabelle
  imports Complex_Main "HOL-Library.AList"
begin

section \<open>Values shared by the runner\<close>

text \<open>
  A record of the results file is a JSON object, which Python reads as a \<open>dict\<close>:
  an association list in insertion order. \<open>map_of\<close> is the lookup \<open>d[k]\<close>,
  \<open>map_of d k \<noteq> None\<close> is \<open>k in d\<close>, and \<open>AList.update\<close> is the assignment
  \<open>d[k] = v\<close> (an existing key keeps its position, a new key goes to the end).
  Numbers are kept as integers: the runner never computes with them.
\<close>

datatype jval =
    JNull
  | JBool bool
  | JNum int
  | JStr string
  | JArr "jval list"
  | JObj "(string \<times> jval) list"

type_synonym jobj = "(string \<times> jval) list"

text \<open>
  The exceptions the runner can meet. \<open>KeyboardInterrupt\<close> and \<open>SystemExit\<close>
  derive from \<open>BaseException\<close> only; every other one is an \<open>Exception\<close>.
\<close>

datatype exc =
    OpenAIError string
  | Exception string
  | TypeError string
  | JSONDecodeError string
  | KeyboardInterrupt
  | SystemExit

text \<open>\<open>isinstance(e, Exception)\<close>: what the clause
  \<open>except (openai.error.OpenAIError, Exception)\<close> of runner.py catches.\<close>

fun is_Exception :: "exc \<Rightarrow> bool" where
  "is_Exception KeyboardInterrupt = False"
| "is_Exception SystemExit = False"
| "is_Exception _ = True"

text \<open>A \<open>list\<close> or a \<open>dict\<close> cannot be a member of a Python set.\<close>

fun hashable :: "jval \<Rightarrow> bool" where
  "hashable (JArr _) = False"
| "hashable (JObj _) = False"
| "hashable _ = True"

section \<open>model/hugging_face_model/wizard_model.py\<close>

text \<open>
  A Python \<open>float\<close> is written as a \<open>real\<close>: the class stores its floats and hands
  them on, it never computes with them. The class constants of lines 22 to 25:
\<close>

definition MAX_NEW_TOKENS :: int where "MAX_NEW_TOKENS = 384"

text \<open>
  \<open>Quantization\<close> and \<open>PromptMode\<close> are declared in \<open>zero_shot_replication.model.base\<close>,
  which is not among the sources. The class names one member of each; any other member of
  \<open>Quantization\<close> is kept by its name.
\<close>

datatype Quantization = float16 | OtherQuantization string

datatype PromptMode = HUMAN_FEEDBACK

datatype torch_dtype = torch_float16 | torch_bfloat16

text \<open>The keyword arguments of \<open>GenerationConfig\<close> in lines 73 to 81.\<close>

record GenerationConfig =
  temperature :: real
  top_p :: real
  top_k :: int
  num_beams :: int
  eos_token_id :: "int option"
  pad_token_id :: "int option"
  do_sample :: bool

text \<open>One call of \<open>self.model.generate\<close>: its three arguments (lines 83 to 87).\<close>

record generate_call =
  input_ids :: "int list"
  generation_config :: GenerationConfig
  max_new_tokens :: int

text \<open>
  What the class takes from outside: torch, the environment variable \<open>HF_TOKEN\<close>,
  \<open>quantization_to_kwargs\<close> and the transformers library. \<open>'tok\<close> is a loaded tokenizer,
  \<open>'mdl\<close> the loaded weights, \<open>'kw\<close> the keyword arguments made from the quantization.
  The loaders take the model name and the access token (and the keyword arguments or the
  dtype); the tokenizer call takes the prompt and the device; \<open>generate\<close> returns a batch
  of token sequences; \<open>decode\<close> takes the sequence moved to the device.
\<close>

record ('tok, 'mdl, 'kw) runtime =
  cuda_is_available :: bool
  getenv_HF_TOKEN :: "string option"
  quantization_to_kwargs :: "Quantization \<Rightarrow> 'kw"
  LlamaTokenizer_from_pretrained :: "string \<Rightarrow> string \<Rightarrow> 'kw \<Rightarrow> exc + 'tok"
  LlamaForCausalLM_from_pretrained :: "string \<Rightarrow> torch_dtype \<Rightarrow> string \<Rightarrow> exc + 'mdl"
  tokenizer_call :: "'tok \<Rightarrow> string \<Rightarrow> string \<Rightarrow> exc + int list"
  tokenizer_eos_token_id :: "'tok \<Rightarrow> int option"
  tokenizer_pad_token_id :: "'tok \<Rightarrow> int option"
  generate :: "'mdl \<Rightarrow> generate_call \<Rightarrow> exc + int list list"
  decode :: "'tok \<Rightarrow> int list \<Rightarrow> string \<Rightarrow> exc + string"

text \<open>The attributes of an instance, in the order \<open>__init__\<close> assigns them. Modelled from
  the spec: the constructor of the base class \<open>LargeLanguageModel\<close>, not among the sources,
  keeps its five arguments (the model "descriptor" exposes \<open>prompt_mode\<close>); they are the
  attributes \<open>model_name\<close> to \<open>prompt_mode\<close>, and the last line of \<open>__init__\<close> assigns
  \<open>temperature\<close> again.\<close>

record ('tok, 'mdl) HuggingFaceWizardModel =
  device :: string
  model_name :: string
  quantization :: Quantization
  stream :: bool
  prompt_mode :: PromptMode
  max_new_tokens :: int
  hf_access_token :: string
  tokenizer :: 'tok
  model :: 'mdl
  temperature :: real

text \<open>\<open>max_new_tokens or HuggingFaceWizardModel.MAX_NEW_TOKENS\<close>: \<open>None\<close> (also the
  omitted argument) and \<open>0\<close> are falsy.\<close>

fun or_int :: "int option \<Rightarrow> int \<Rightarrow> int" where
  "or_int None d = d"
| "or_int (Some n) d = (if n = 0 then d else n)"

text \<open>\<open>os.getenv(name, "")\<close>\<close>

fun getenv_default :: "string option \<Rightarrow> string" where
  "getenv_default None = []"
| "getenv_default (Some v) = v"

text \<open>\<open>__init__\<close> (lines 27 to 67): the instance, or the exception of a loader.\<close>

definition HuggingFaceWizardModel_init ::
  "('tok, 'mdl, 'kw) runtime \<Rightarrow> string \<Rightarrow> Quantization \<Rightarrow> real \<Rightarrow> bool \<Rightarrow> int option
     \<Rightarrow> exc + ('tok, 'mdl) HuggingFaceWizardModel" where
  "HuggingFaceWizardModel_init rt model_name_arg quantization_arg temperature_arg stream_arg
       max_new_tokens_arg =
     (let device_v = (if cuda_is_available rt then ''cuda'' else ''cpu'');
          max_new_tokens_v = or_int max_new_tokens_arg MAX_NEW_TOKENS;
          hf_access_token_v = getenv_default (getenv_HF_TOKEN rt)
      in case LlamaTokenizer_from_pretrained rt model_name_arg hf_access_token_v
                (quantization_to_kwargs rt quantization_arg) of
           Inl e \<Rightarrow> Inl e
         | Inr tokenizer_v \<Rightarrow>
             (case LlamaForCausalLM_from_pretrained rt model_name_arg
                     (if quantization_arg = float16 then torch_float16 else torch_bfloat16)
                     hf_access_token_v of
                Inl e \<Rightarrow> Inl e
              | Inr model_v \<Rightarrow>
                  Inr \<lparr>device = device_v,
                       model_name = model_name_arg,
                       quantization = quantization_arg,
                       stream = stream_arg,
                       prompt_mode = HUMAN_FEEDBACK,
                       max_new_tokens = max_new_tokens_v,
                       hf_access_token = hf_access_token_v,
                       tokenizer = tokenizer_v,
                       model = model_v,
                       temperature = temperature_arg\<rparr>))"


section \<open>runner.py: the output path\<close>

text \<open>The attributes of \<open>argparse.Namespace\<close> that runner.py reads. \<open>output_file_name\<close>
  is \<open>None\<close> unless the user gave one.\<close>

record namespace =
  provider :: string
  pset :: string
  model :: string
  temperature :: real
  quantization :: string
  py_interpreter :: bool
  output_file_name :: "string option"

text \<open>
  \<open>OUTPUT_FILE_NAME\<close>, \<open>get_root_dir\<close> and \<open>prep_for_file_path\<close> belong to
  \<open>zero_shot_replication.core\<close>, which is not among the sources: they are parameters,
  with \<open>str\<close> on a \<open>float\<close>. The format string is given by its pieces: literal text
  and the replacement fields \<open>{PROVIDER}\<close>, \<open>{pset}\<close>, \<open>{MODEL}\<close>, \<open>{TEMPERATURE}\<close>,
  \<open>{QUANTIZATION}\<close>, \<open>{VERSION}\<close> that \<open>format\<close> is called with.
\<close>

datatype field =
  Fld_PROVIDER | Fld_pset | Fld_MODEL | Fld_TEMPERATURE | Fld_QUANTIZATION | Fld_VERSION

datatype piece = Lit string | Fld field

record core =
  get_root_dir :: string
  prep_for_file_path :: "string \<Rightarrow> string"
  OUTPUT_FILE_NAME :: "piece list"
  str_float :: "real \<Rightarrow> string"

text \<open>\<open>str.format\<close> with keyword arguments.\<close>

fun format :: "piece list \<Rightarrow> (field \<Rightarrow> string) \<Rightarrow> string" where
  "format [] kw = []"
| "format (Lit s # ps) kw = s @ format ps kw"
| "format (Fld f # ps) kw = kw f @ format ps kw"








text \<open>Lines 38 to 45. \<open>args.quantization\<close> is a \<open>str\<close> already.\<close>

definition base_file_name :: "core \<Rightarrow> namespace \<Rightarrow> string \<Rightarrow> string" where
  "base_file_name c args version =
     format (OUTPUT_FILE_NAME c)
       (\<lambda>f. case f of
          Fld_PROVIDER \<Rightarrow> prep_for_file_path c (provider args)
        | Fld_pset \<Rightarrow> prep_for_file_path c (pset args)
        | Fld_MODEL \<Rightarrow> prep_for_file_path c (namespace.model args)
        | Fld_TEMPERATURE \<Rightarrow> prep_for_file_path c (str_float c (namespace.temperature args))
        | Fld_QUANTIZATION \<Rightarrow> prep_for_file_path c (namespace.quantization args)
        | Fld_VERSION \<Rightarrow> prep_for_file_path c version)"



section \<open>The results file\<close>

text \<open>
  One line of the file at \<open>out_path\<close>: a JSON object, or text that is not JSON.
  The file is absent (\<open>None\<close>) or a list of lines.
\<close>

datatype jline = Line jobj | Malformed string

type_synonym jsonl_file = "jline list option"

text \<open>Modelled from the spec: \<open>load_existing_jsonl\<close> of
  \<open>zero_shot_replication.core.utils\<close>, which is not among the sources. It
  "returns empty sequence if the file does not exist; parses one JSON object per line
  otherwise; fails with a ParseError if a line is malformed".\<close>

fun parse_lines :: "jline list \<Rightarrow> exc + jobj list" where
  "parse_lines [] = Inr []"
| "parse_lines (Malformed s # ls) = Inl (JSONDecodeError s)"
| "parse_lines (Line r # ls) =
     (case parse_lines ls of Inl e \<Rightarrow> Inl e | Inr rs \<Rightarrow> Inr (r # rs))"

fun load_existing_jsonl :: "jsonl_file \<Rightarrow> exc + jobj list" where
  "load_existing_jsonl None = Inr []"
| "load_existing_jsonl (Some ls) = parse_lines ls"

section \<open>The runner's state\<close>

text \<open>
  What the run does to the world, in order: the lines it prints, the calls of the
  provider's \<open>get_completion\<close> (task id and prompt) and the calls of \<open>write_jsonl\<close>
  (with the sequence written).
\<close>

datatype event =
    PrintContinuing string
  | PrintPrompt string string
  | GetCompletion string string
  | PrintExtracted string
  | PrintError string exc
  | WriteJsonl "jobj list"

text \<open>
  The module-level variables \<open>results\<close> and \<open>result\<close> (unassigned: \<open>None\<close>), the
  file at \<open>out_path\<close>, the provider's own state and the events so far.
\<close>

record 'p state =
  results :: "jobj list"
  result :: "jobj option"
  out_file :: jsonl_file
  llm_provider :: 'p
  trace :: "event list"

text \<open>
  The collaborators of the loop, none of them among the sources:
  \<open>llm_provider.model.get_formatted_prompt(problem, dataset)\<close>,
  \<open>llm_provider.get_completion(prompt)\<close>, which may answer differently from call to
  call and so threads a state, and \<open>extract_code\<close>. Each returns or raises.
\<close>

record 'p collaborators =
  get_formatted_prompt :: "jobj \<Rightarrow> exc + string"
  get_completion :: "'p \<Rightarrow> string \<Rightarrow> (exc + string) \<times> 'p"
  extract_code :: "string \<Rightarrow> exc + string"

section \<open>runner.py: the experiment (lines 88 to 136)\<close>

text \<open>\<open>[result["task_id"] for result in results if "task_id" in result]\<close>\<close>

fun task_id_values :: "jobj list \<Rightarrow> jval list" where
  "task_id_values [] = []"
| "task_id_values (r # rs) =
     (case map_of r ''task_id'' of
        None \<Rightarrow> task_id_values rs
      | Some v \<Rightarrow> v # task_id_values rs)"

text \<open>The set comprehension of lines 89 to 91 (the source spells the name so). Building the
  set raises \<open>TypeError\<close> at the first value that is not hashable.\<close>

definition exising_task_ids :: "jobj list \<Rightarrow> exc + jval set" where
  "exising_task_ids rs =
     (if list_all hashable (task_id_values rs)
      then Inr (set (task_id_values rs))
      else Inl (TypeError ''unhashable type''))"

text \<open>The dict display \<open>{**problem, k1: v1, ...}\<close>: the keys are assigned left to right.\<close>

definition dict_display :: "jobj \<Rightarrow> (string \<times> jval) list \<Rightarrow> jobj" where
  "dict_display problem kvs = foldl (\<lambda>d (k, v). AList.update k v d) problem kvs"

definition success_result :: "jobj \<Rightarrow> string \<Rightarrow> string \<Rightarrow> string \<Rightarrow> string \<Rightarrow> jobj" where
  "success_result problem task_id completion raw_completion prompt =
     dict_display problem
       [(''task_id'', JStr task_id),
        (''completion'', JStr completion),
        (''raw_completion'', JStr raw_completion),
        (''actual_prompt'', JStr prompt)]"

definition error_result :: "jobj \<Rightarrow> string \<Rightarrow> string \<Rightarrow> jobj" where
  "error_result problem task_id prompt =
     dict_display problem
       [(''task_id'', JStr task_id),
        (''completion'', JStr ''Error encountered''),
        (''raw_completion'', JStr ''Error encountered''),
        (''actual_prompt'', JStr prompt)]"

text \<open>Modelled from the spec: \<open>write_jsonl\<close> of the evalplus package "serializes the full
  sequence, one JSON object per line, overwriting the file".\<close>

definition write_jsonl :: "'p state \<Rightarrow> 'p state" where
  "write_jsonl st =
     st\<lparr>out_file := Some (map Line (results st)),
        trace := trace st @ [WriteJsonl (results st)]\<rparr>"

definition emit :: "event \<Rightarrow> 'p state \<Rightarrow> 'p state" where
  "emit ev st = st\<lparr>trace := trace st @ [ev]\<rparr>"

text \<open>\<open>args.pset in ["human-eval", "leetcode", "leetcode-msft-sparks"]\<close>\<close>

definition codegen_pset :: "string \<Rightarrow> bool" where
  "codegen_pset name = (name \<in> set [''human-eval'', ''leetcode'', ''leetcode-msft-sparks''])"

text \<open>Lines 105 to 110, after the provider has answered: the completion, or what
  \<open>extract_code\<close> raises.\<close>

definition completion_of :: "'p collaborators \<Rightarrow> namespace \<Rightarrow> string \<Rightarrow> exc + string" where
  "completion_of c args raw_completion =
     (if codegen_pset (pset args) then extract_code c raw_completion else Inr raw_completion)"

text \<open>The \<open>except\<close> clause of lines 123 to 134, entered with the exception \<open>e\<close>. An
  exception that is no \<open>Exception\<close> leaves the loop; otherwise the handler prints,
  assigns \<open>result\<close> and the body goes on to line 136.\<close>

definition handler :: "string \<Rightarrow> jobj \<Rightarrow> string \<Rightarrow> exc \<Rightarrow> 'p state \<Rightarrow> exc option \<times> 'p state" where
  "handler task_id problem prompt e st =
     (if is_Exception e
      then (None,
            write_jsonl
              ((emit (PrintError task_id e) st)\<lparr>result := Some (error_result problem task_id prompt)\<rparr>))
      else (Some e, st))"

text \<open>The \<open>try\<close> block of lines 104 to 121 with its handler, and line 136.\<close>

definition attempt :: "'p collaborators \<Rightarrow> namespace \<Rightarrow> string \<Rightarrow> jobj \<Rightarrow> string \<Rightarrow> 'p state
    \<Rightarrow> exc option \<times> 'p state" where
  "attempt c args task_id problem prompt st =
     (case get_completion c (llm_provider st) prompt of
        (answer, p') \<Rightarrow>
          (let st1 = (emit (GetCompletion task_id prompt) st)\<lparr>llm_provider := p'\<rparr> in
           case answer of
             Inl e \<Rightarrow> handler task_id problem prompt e st1
           | Inr raw_completion \<Rightarrow>
               (case completion_of c args raw_completion of
                  Inl e \<Rightarrow> handler task_id problem prompt e st1
                | Inr completion \<Rightarrow>
                    (let r = success_result problem task_id completion raw_completion prompt;
                         st2 = emit (PrintExtracted completion) st1
                     in (None,
                         write_jsonl (st2\<lparr>result := Some r, results := results st2 @ [r]\<rparr>))))))"

text \<open>One pass through the loop body (lines 95 to 136) for the pair \<open>(task_id, problem)\<close>.
  The first component is the exception that leaves the loop, if any. The task ids of a
  dataset are strings, and a string is equal to no other kind of JSON value, so
  \<open>task_id in exising_task_ids\<close> asks whether the string is in the set.\<close>

definition iteration :: "'p collaborators \<Rightarrow> namespace \<Rightarrow> jval set \<Rightarrow> 'p state \<Rightarrow> string \<times> jobj
    \<Rightarrow> exc option \<times> 'p state" where
  "iteration c args ids st t =
     (case t of (task_id, problem) \<Rightarrow>
        if JStr task_id \<in> ids
        then (None, emit (PrintContinuing task_id) st)
        else (case get_formatted_prompt c problem of
                Inl e \<Rightarrow> (Some e, st)
              | Inr prompt \<Rightarrow>
                  attempt c args task_id problem prompt (emit (PrintPrompt task_id prompt) st)))"

text \<open>The \<open>for\<close> loop of line 94 over the (finite) dataset.\<close>

fun run_loop :: "'p collaborators \<Rightarrow> namespace \<Rightarrow> jval set \<Rightarrow> 'p state \<Rightarrow> (string \<times> jobj) list
    \<Rightarrow> exc option \<times> 'p state" where
  "run_loop c args ids st [] = (None, st)"
| "run_loop c args ids st (t # ts) =
     (case iteration c args ids st t of
        (None, st') \<Rightarrow> run_loop c args ids st' ts
      | (Some e, st') \<Rightarrow> (Some e, st'))"

definition initial_state :: "jsonl_file \<Rightarrow> 'p \<Rightarrow> jobj list \<Rightarrow> 'p state" where
  "initial_state f p rs =
     \<lparr>results = rs, result = None, out_file = f, llm_provider = p, trace = []\<rparr>"

text \<open>Lines 88 to 136: load, build the set of known ids, loop. \<open>None\<close> in the first
  component is the normal end of the script (exit status 0); \<open>Some e\<close> is the uncaught
  exception \<open>e\<close>.\<close>

definition main :: "'p collaborators \<Rightarrow> namespace \<Rightarrow> jsonl_file \<Rightarrow> 'p \<Rightarrow> (string \<times> jobj) list
    \<Rightarrow> exc option \<times> 'p state" where
  "main c args f p dataset =
     (case load_existing_jsonl f of
        Inl e \<Rightarrow> (Some e, initial_state f p [])
      | Inr rs \<Rightarrow>
          (case exising_task_ids rs of
             Inl e \<Rightarrow> (Some e, initial_state f p rs)
           | Inr ids \<Rightarrow> run_loop c args ids (initial_state f p rs) dataset))"

section \<open>Notions used to state the properties\<close>

text \<open>The file holds what is in memory: loading it would give \<open>results\<close>.\<close>

definition synced :: "'p state \<Rightarrow> bool" where
  "synced st = (load_existing_jsonl (out_file st) = Inr (results st))"

text \<open>The provider calls and the writes among some events, in order.\<close>

fun calls :: "event list \<Rightarrow> (string \<times> string) list" where
  "calls [] = []"
| "calls (GetCompletion t p # evs) = (t, p) # calls evs"
| "calls (_ # evs) = calls evs"

fun writes :: "event list \<Rightarrow> jobj list list" where
  "writes [] = []"
| "writes (WriteJsonl w # evs) = w # writes evs"
| "writes (_ # evs) = writes evs"

text \<open>The task ids of a dataset that are not in the set of known ids, in dataset order.\<close>

definition pending :: "jval set \<Rightarrow> (string \<times> jobj) list \<Rightarrow> string list" where
  "pending ids ds = filter (\<lambda>t. JStr t \<notin> ids) (map fst ds)"

text \<open>What the writes of a stretch of the run from \<open>st\<close> to \<open>st'\<close> look like: every
  sequence written starts with the records that were in memory at \<open>st\<close>; without a write
  the file and the memory are as they were, and otherwise the file is the last sequence
  written, which is the memory at \<open>st'\<close>.\<close>

definition persisted :: "'p state \<Rightarrow> event list \<Rightarrow> 'p state \<Rightarrow> bool" where
  "persisted st evs st' =
     (list_all (\<lambda>w. take (length (results st)) w = results st) (writes evs) \<and>
      (if writes evs = []
       then out_file st' = out_file st \<and> results st' = results st
       else out_file st' = Some (map Line (results st')) \<and> last (writes evs) = results st'))"


section \<open>Instances for the examples\<close>

text \<open>The scenario of the specification: the prompt is the field \<open>prompt\<close> of the problem,
  the provider fails on the prompt \<open>p2\<close> and answers a fenced block otherwise, counting
  its calls, and the extractor drops the fence.\<close>

definition scenario :: "nat collaborators" where
  "scenario =
     \<lparr>get_formatted_prompt =
        (\<lambda>problem. case map_of problem ''prompt'' of
                      Some (JStr s) \<Rightarrow> Inr s
                    | _ \<Rightarrow> Inl (Exception ''KeyError'')),
      get_completion =
        (\<lambda>n prompt. (if prompt = ''p2'' then Inl (OpenAIError ''timeout'')
                     else Inr ''```print(1)```'', Suc n)),
      extract_code = (\<lambda>raw. Inr (filter (\<lambda>ch. ch \<noteq> CHR ''`'') raw))\<rparr>"

definition human_eval :: namespace where
  "human_eval =
     \<lparr>provider = ''openai'', pset = ''human-eval'', model = ''gpt-4'', temperature = 0.7,
      quantization = ''proprietary'', py_interpreter = False, output_file_name = None\<rparr>"

definition two_tasks :: "(string \<times> jobj) list" where
  "two_tasks = [(''t1'', [(''prompt'', JStr ''p1'')]), (''t2'', [(''prompt'', JStr ''p2'')])]"

text \<open>A results file with a record of \<open>t1\<close> and a record without task id.\<close>

definition old_file :: jsonl_file where
  "old_file = Some [Line [(''task_id'', JStr ''t1''), (''completion'', JStr ''x'')],
                    Line [(''note'', JStr ''n'')]]"


text \<open>A runtime whose tokenizer gives the length of the prompt as the only token and whose
  model echoes its input.\<close>

definition example_runtime :: "(unit, unit, unit) runtime" where
  "example_runtime =
     \<lparr>cuda_is_available = False,
      getenv_HF_TOKEN = None,
      quantization_to_kwargs = (\<lambda>q. ()),
      LlamaTokenizer_from_pretrained = (\<lambda>name token kw. Inr ()),
      LlamaForCausalLM_from_pretrained = (\<lambda>name dtype token. Inr ()),
      tokenizer_call = (\<lambda>tok prompt dev. Inr [int (length prompt)]),
      tokenizer_eos_token_id = (\<lambda>tok. Some 2),
      tokenizer_pad_token_id = (\<lambda>tok. None),
      generate = (\<lambda>mdl call. Inr [input_ids call]),
      decode = (\<lambda>tok out dev. Inr ''ok'')\<rparr>"

text \<open>The instance that \<open>example_runtime\<close> builds for the model name \<open>wizard\<close> at
  temperature 0.7 when \<open>max_new_tokens\<close> is falsy.\<close>

definition example_wizard :: "(unit, unit) HuggingFaceWizardModel" where
  "example_wizard =
     \<lparr>device = ''cpu'', model_name = ''wizard'', quantization = float16, stream = False,
      prompt_mode = HUMAN_FEEDBACK, max_new_tokens = 384, hf_access_token = [],
      tokenizer = (), model = (), temperature = 0.7\<rparr>"

section \<open>Facts about the loop\<close>

lemma parse_lines_map_Line: "parse_lines (map Line rs) = Inr rs"
  by (induction rs) simp_all

lemma calls_append: "calls (xs @ ys) = calls xs @ calls ys"
  by (induction xs rule: calls.induct) simp_all

lemma writes_append: "writes (xs @ ys) = writes xs @ writes ys"
  by (induction xs rule: writes.induct) simp_all

text \<open>The five ways through a loop body.\<close>
lemma iteration_cases:
  assumes "iteration c args ids st (task_id, problem) = (x, st')"
  obtains 
    (skip) "JStr task_id \<in> ids" "x = None" "st' = emit (PrintContinuing task_id) st"
  | (prompt_raises) e where "JStr task_id \<notin> ids" "get_formatted_prompt c problem = Inl e"
       "x = Some e" "st' = st"
  | (appended) prompt raw p' completion where "JStr task_id \<notin> ids"
       "get_formatted_prompt c problem = Inr prompt"
       "get_completion c (llm_provider st) prompt = (Inr raw, p')"
       "completion_of c args raw = Inr completion"
       "x = None"
       "trace st' = trace st @ [PrintPrompt task_id prompt, GetCompletion task_id prompt,
           PrintExtracted completion,
           WriteJsonl (results st @ [success_result problem task_id completion raw prompt])]"
       "llm_provider st' = p'"
       "result st' = Some (success_result problem task_id completion raw prompt)"
       "results st' = results st @ [success_result problem task_id completion raw prompt]"
       "out_file st' = Some (map Line (results st'))"
  | (caught) prompt e p' where "JStr task_id \<notin> ids"
       "get_formatted_prompt c problem = Inr prompt"
       "is_Exception e"
       "get_completion c (llm_provider st) prompt = (Inl e, p') \<or>
        (\<exists>raw. get_completion c (llm_provider st) prompt = (Inr raw, p') \<and> completion_of c args raw = Inl e)"
       "x = None"
       "trace st' = trace st @ [PrintPrompt task_id prompt, GetCompletion task_id prompt,
           PrintError task_id e, WriteJsonl (results st)]"
       "llm_provider st' = p'"
       "result st' = Some (error_result problem task_id prompt)"
       "results st' = results st"
       "out_file st' = Some (map Line (results st))"
  | (escaped) prompt e p' where "JStr task_id \<notin> ids"
       "get_formatted_prompt c problem = Inr prompt"
       "\<not> is_Exception e"
       "get_completion c (llm_provider st) prompt = (Inl e, p') \<or>
        (\<exists>raw. get_completion c (llm_provider st) prompt = (Inr raw, p') \<and> completion_of c args raw = Inl e)"
       "x = Some e"
       "trace st' = trace st @ [PrintPrompt task_id prompt, GetCompletion task_id prompt]"
       "llm_provider st' = p'"
       "result st' = result st"
       "results st' = results st"
       "out_file st' = out_file st"
  using assms
  by (auto simp: iteration_def attempt_def handler_def emit_def write_jsonl_def Let_def
      split: if_splits sum.splits prod.splits)


lemma emit_fields [simp]:
  "results (emit ev st) = results st" "result (emit ev st) = result st"
  "out_file (emit ev st) = out_file st" "llm_provider (emit ev st) = llm_provider st"
  "trace (emit ev st) = trace st @ [ev]"
  by (simp_all add: emit_def)

lemma map_of_dict_display_task_id:
  "map_of (success_result problem task_id completion raw prompt) ''task_id'' = Some (JStr task_id)"
  by (simp add: success_result_def dict_display_def update_conv')

lemma iteration_results:
  assumes "iteration c args ids st (task_id, problem) = (x, st')"
  shows "\<exists>new. results st' = results st @ new \<and>
           (\<forall>r\<in>set new. map_of r ''task_id'' = Some (JStr task_id) \<and> JStr task_id \<notin> ids)"
  using assms by (cases rule: iteration_cases) (auto simp: map_of_dict_display_task_id)

lemma iteration_synced:
  assumes "iteration c args ids st (task_id, problem) = (x, st')" and "synced st"
  shows "synced st'"
proof -
  have w: "\<And>s::'a state. out_file s = Some (map Line (results s)) \<Longrightarrow> synced s"
    by (simp add: synced_def parse_lines_map_Line)
  from assms(1) show ?thesis
  proof (cases rule: iteration_cases)
    case skip
    with assms(2) show ?thesis by (simp add: synced_def)
  next
    case (prompt_raises e)
    with assms(2) show ?thesis by simp
  next
    case (appended prompt raw p' completion)
    then show ?thesis by (intro w)
  next
    case (caught prompt e p')
    then show ?thesis by (intro w) simp
  next
    case (escaped prompt e p')
    with assms(2) show ?thesis by (simp add: synced_def)
  qed
qed

lemma iteration_skip_printed:
  assumes "iteration c args ids st (task_id, problem) = (x, st')" and "JStr task_id \<in> ids"
  shows "trace st' = trace st @ [PrintContinuing task_id]" 
  using assms by (cases rule: iteration_cases) auto

lemma run_loop_results:
  assumes "run_loop c args ids st ds = (x, st')"
  shows "\<exists>new. results st' = results st @ new \<and>
           (\<forall>r\<in>set new. \<exists>t. map_of r ''task_id'' = Some (JStr t) \<and> JStr t \<notin> ids \<and> t \<in> fst ` set ds)"
  using assms
proof (induction ds arbitrary: st)
  case Nil
  then show ?case by simp
next
  case (Cons t ds)
  obtain task_id problem where t: "t = (task_id, problem)" by (cases t)
  obtain y st1 where it: "iteration c args ids st (task_id, problem) = (y, st1)"
    by (cases "iteration c args ids st (task_id, problem)")
  from iteration_results [OF it] obtain new1 where
    n1: "results st1 = results st @ new1"
      "\<forall>r\<in>set new1. map_of r ''task_id'' = Some (JStr task_id) \<and> JStr task_id \<notin> ids"
    by blast
  show ?case
  proof (cases y)
    case None
    with Cons.prems t it have "run_loop c args ids st1 ds = (x, st')" by simp
    from Cons.IH [OF this] obtain new2 where
      n2: "results st' = results st1 @ new2"
        "\<forall>r\<in>set new2. \<exists>t. map_of r ''task_id'' = Some (JStr t) \<and> JStr t \<notin> ids \<and> t \<in> fst ` set ds"
      by blast
    have "results st' = results st @ (new1 @ new2)" using n1 n2 by simp
    moreover have "\<forall>r\<in>set (new1 @ new2). \<exists>u. map_of r ''task_id'' = Some (JStr u) \<and> JStr u \<notin> ids
        \<and> u \<in> fst ` set (t # ds)"
    proof
      fix r assume "r \<in> set (new1 @ new2)"
      then consider "r \<in> set new1" | "r \<in> set new2" by auto
      then show "\<exists>u. map_of r ''task_id'' = Some (JStr u) \<and> JStr u \<notin> ids \<and> u \<in> fst ` set (t # ds)"
      proof cases
        case 1
        with n1(2) have "map_of r ''task_id'' = Some (JStr task_id) \<and> JStr task_id \<notin> ids" by blast
        moreover have "task_id \<in> fst ` set (t # ds)" using t by simp
        ultimately show ?thesis by blast
      next
        case 2
        with n2(2) obtain u where "map_of r ''task_id'' = Some (JStr u)" "JStr u \<notin> ids" "u \<in> fst ` set ds"
          by blast
        then show ?thesis by auto
      qed
    qed
    ultimately show ?thesis by blast
  next
    case (Some e)
    with Cons.prems t it have "st' = st1" by simp
    moreover have "task_id \<in> fst ` set (t # ds)" using t by simp
    ultimately have "results st' = results st @ new1 \<and>
      (\<forall>r\<in>set new1. \<exists>u. map_of r ''task_id'' = Some (JStr u) \<and> JStr u \<notin> ids \<and> u \<in> fst ` set (t # ds))"
      using n1 by blast
    then show ?thesis by blast
  qed
qed

lemma run_loop_synced:
  assumes "run_loop c args ids st ds = (x, st')" and "synced st"
  shows "synced st'"
  using assms
proof (induction ds arbitrary: st)
  case Nil
  then show ?case by simp
next
  case (Cons t ds)
  obtain task_id problem where t: "t = (task_id, problem)" by (cases t)
  obtain y st1 where it: "iteration c args ids st (task_id, problem) = (y, st1)"
    by (cases "iteration c args ids st (task_id, problem)")
  have s1: "synced st1" using iteration_synced [OF it Cons.prems(2)] .
  show ?case
  proof (cases y)
    case None
    with Cons.prems t it have "run_loop c args ids st1 ds = (x, st')" by simp
    from Cons.IH [OF this s1] show ?thesis .
  next
    case (Some e)
    with Cons.prems t it have "st' = st1" by simp
    with s1 show ?thesis by simp
  qed
qed


lemma iteration_attempts:
  assumes "iteration c args ids st (task_id, problem) = (x, st')"
  shows "\<exists>evs rest. trace st' = trace st @ evs \<and>
           pending ids [(task_id, problem)] = map fst (calls evs) @ rest \<and>
           (x = None \<longrightarrow> rest = [])"
  using assms by (cases rule: iteration_cases) (simp_all add: pending_def)

lemma run_loop_attempts:
  assumes "run_loop c args ids st ds = (x, st')"
  shows "\<exists>evs rest. trace st' = trace st @ evs \<and>
           pending ids ds = map fst (calls evs) @ rest \<and>
           (x = None \<longrightarrow> rest = [])"
  using assms
proof (induction ds arbitrary: st)
  case Nil
  then show ?case by (simp add: pending_def)
next
  case (Cons t ds)
  obtain task_id problem where t: "t = (task_id, problem)" by (cases t)
  obtain y st1 where it: "iteration c args ids st (task_id, problem) = (y, st1)"
    by (cases "iteration c args ids st (task_id, problem)")
  from iteration_attempts [OF it] obtain evs1 rest1 where
    e1: "trace st1 = trace st @ evs1"
      "pending ids [(task_id, problem)] = map fst (calls evs1) @ rest1"
      "y = None \<longrightarrow> rest1 = []"
    by blast
  have split: "pending ids (t # ds) = pending ids [(task_id, problem)] @ pending ids ds"
    by (simp add: pending_def t)
  show ?case
  proof (cases y)
    case None
    with Cons.prems t it have "run_loop c args ids st1 ds = (x, st')" by simp
    from Cons.IH [OF this] obtain evs2 rest2 where
      e2: "trace st' = trace st1 @ evs2"
        "pending ids ds = map fst (calls evs2) @ rest2"
        "x = None \<longrightarrow> rest2 = []"
      by blast
    from None e1(3) have r1: "rest1 = []" by simp
    have "trace st' = trace st @ (evs1 @ evs2)" using e1(1) e2(1) by simp
    moreover have "pending ids (t # ds) = map fst (calls (evs1 @ evs2)) @ rest2"
      using split e1(2) e2(2) r1 by (simp add: calls_append)
    ultimately show ?thesis using e2(3) by blast
  next
    case (Some e)
    with Cons.prems t it have "st' = st1" "x = Some e" by simp_all
    moreover have "pending ids (t # ds) = map fst (calls evs1) @ (rest1 @ pending ids ds)"
      using split e1(2) by simp
    ultimately show ?thesis using e1(1) by blast
  qed
qed

lemma iteration_persisted:
  assumes "iteration c args ids st (task_id, problem) = (x, st')"
  shows "\<exists>evs. trace st' = trace st @ evs \<and> persisted st evs st'"
  using assms by (cases rule: iteration_cases) (simp_all add: persisted_def)

lemma persisted_trans:
  assumes "persisted st evs1 st1" and "persisted st1 evs2 st'"
    and "\<exists>new. results st1 = results st @ new"
  shows "persisted st (evs1 @ evs2) st'"
proof -
  from assms(3) obtain new where n: "results st1 = results st @ new" by blast
  have pre: "\<And>w. take (length (results st1)) w = results st1 \<Longrightarrow>
      take (length (results st)) w = results st"
  proof -
    fix w assume "take (length (results st1)) w = results st1"
    then have "take (length (results st)) (take (length (results st1)) w)
        = take (length (results st)) (results st1)" by simp
    then show "take (length (results st)) w = results st" using n by (simp add: min_def)
  qed
  have all2: "list_all (\<lambda>w. take (length (results st)) w = results st) (writes evs2)"
    using assms(2) pre by (auto simp: persisted_def list_all_iff)
  show ?thesis
  proof (cases "writes evs2 = []")
    case True
    with assms show ?thesis by (auto simp: persisted_def writes_append)
  next
    case False
    with assms all2 show ?thesis by (auto simp: persisted_def writes_append)
  qed
qed

lemma run_loop_persisted:
  assumes "run_loop c args ids st ds = (x, st')"
  shows "\<exists>evs. trace st' = trace st @ evs \<and> persisted st evs st'"
  using assms
proof (induction ds arbitrary: st)
  case Nil
  then show ?case by (simp add: persisted_def)
next
  case (Cons t ds)
  obtain task_id problem where t: "t = (task_id, problem)" by (cases t)
  obtain y st1 where it: "iteration c args ids st (task_id, problem) = (y, st1)"
    by (cases "iteration c args ids st (task_id, problem)")
  from iteration_persisted [OF it] obtain evs1 where
    e1: "trace st1 = trace st @ evs1" "persisted st evs1 st1" by blast
  from iteration_results [OF it] have g: "\<exists>new. results st1 = results st @ new" by blast
  show ?case
  proof (cases y)
    case None
    with Cons.prems t it have "run_loop c args ids st1 ds = (x, st')" by simp
    from Cons.IH [OF this] obtain evs2 where
      e2: "trace st' = trace st1 @ evs2" "persisted st1 evs2 st'" by blast
    have "trace st' = trace st @ (evs1 @ evs2)" using e1(1) e2(1) by simp
    moreover have "persisted st (evs1 @ evs2) st'"
      using persisted_trans [OF e1(2) e2(2) g] .
    ultimately show ?thesis by blast
  next
    case (Some e)
    with Cons.prems t it have "st' = st1" by simp
    with e1 show ?thesis by blast
  qed
qed

lemma run_loop_trace:
  assumes "run_loop c args ids st ds = (x, st')"
  shows "\<exists>evs. trace st' = trace st @ evs"
  using run_loop_attempts [OF assms] by blast

lemma run_loop_skips:
  assumes "run_loop c args ids st ds = (None, st')" and "(task_id, problem) \<in> set ds"
    and "JStr task_id \<in> ids"
  shows "PrintContinuing task_id \<in> set (trace st')"
  using assms
proof (induction ds arbitrary: st)
  case Nil
  then show ?case by simp
next
  case (Cons t ds)
  obtain tid pr where t: "t = (tid, pr)" by (cases t)
  obtain y st1 where it: "iteration c args ids st (tid, pr) = (y, st1)"
    by (cases "iteration c args ids st (tid, pr)")
  have y: "y = None" using Cons.prems(1) t it by (cases y) simp_all
  with Cons.prems(1) t it have rest: "run_loop c args ids st1 ds = (None, st')" by simp
  from run_loop_trace [OF rest] obtain evs where tr: "trace st' = trace st1 @ evs" by blast
  show ?case
  proof (cases "(task_id, problem) \<in> set ds")
    case True
    from Cons.IH [OF rest True Cons.prems(3)] show ?thesis .
  next
    case False
    with Cons.prems(2) t have "tid = task_id" by simp
    with iteration_skip_printed [OF it] Cons.prems(3)
    have "PrintContinuing task_id \<in> set (trace st1)" by simp
    with tr show ?thesis by simp
  qed
qed


lemma initial_state_fields [simp]:
  "results (initial_state f p rs) = rs" "result (initial_state f p rs) = None"
  "out_file (initial_state f p rs) = f" "llm_provider (initial_state f p rs) = p"
  "trace (initial_state f p rs) = []"
  by (simp_all add: initial_state_def)

lemma exising_task_ids_Inr:
  "exising_task_ids rs = Inr ids \<Longrightarrow> ids = set (task_id_values rs)"
  by (simp add: exising_task_ids_def split: if_splits)

lemma main_cases:
  assumes "main c args f p ds = (x, st)"
  obtains
    (load_fails) e where "load_existing_jsonl f = Inl e" "x = Some e" "st = initial_state f p []"
  | (ids_fail) loaded e where "load_existing_jsonl f = Inr loaded"
      "exising_task_ids loaded = Inl e" "x = Some e" "st = initial_state f p loaded"
  | (looped) loaded where "load_existing_jsonl f = Inr loaded"
      "exising_task_ids loaded = Inr (set (task_id_values loaded))"
      "run_loop c args (set (task_id_values loaded)) (initial_state f p loaded) ds = (x, st)"
proof (cases "load_existing_jsonl f")
  case (Inl e)
  with assms have "x = Some e" "st = initial_state f p []" by (simp_all add: main_def)
  with Inl show ?thesis by (rule load_fails)
next
  case (Inr loaded)
  show ?thesis
  proof (cases "exising_task_ids loaded")
    case (Inl e)
    with assms Inr have "x = Some e" "st = initial_state f p loaded" by (simp_all add: main_def)
    with Inr Inl show ?thesis by (rule ids_fail)
  next
    case ids: (Inr ids)
    from exising_task_ids_Inr [OF ids] have eq: "ids = set (task_id_values loaded)" .
    from assms Inr ids eq
    have "run_loop c args (set (task_id_values loaded)) (initial_state f p loaded) ds = (x, st)"
      by (simp add: main_def)
    with Inr ids eq show ?thesis by (intro looped) simp_all
  qed
qed

lemma codegen_pset_iff:
  "codegen_pset name \<longleftrightarrow> name \<in> {''human-eval'', ''leetcode'', ''leetcode-msft-sparks''}"
  by (simp add: codegen_pset_def)

lemma success_result_fields:
  "map_of (success_result problem task_id completion raw prompt) ''completion'' = Some (JStr completion)"
  "map_of (success_result problem task_id completion raw prompt) ''raw_completion'' = Some (JStr raw)"
  "map_of (success_result problem task_id completion raw prompt) ''actual_prompt'' = Some (JStr prompt)"
  by (simp_all add: success_result_def dict_display_def update_conv')

lemma error_result_fields:
  "map_of (error_result problem task_id prompt) ''completion'' = Some (JStr ''Error encountered'')"
  "map_of (error_result problem task_id prompt) ''raw_completion'' = Some (JStr ''Error encountered'')"
  "map_of (error_result problem task_id prompt) ''task_id'' = Some (JStr task_id)"
  by (simp_all add: error_result_def dict_display_def update_conv')

lemma main_persisted:
  assumes "main c args f p ds = (x, st)" and "load_existing_jsonl f = Inr loaded"
  shows "persisted (initial_state f p loaded) (trace st) st"
  using assms(1)
proof (cases rule: main_cases)
  case (load_fails e)
  with assms(2) show ?thesis by simp
next
  case (ids_fail loaded' e)
  with assms(2) show ?thesis by (simp add: persisted_def)
next
  case (looped loaded')
  with assms(2) have l: "loaded' = loaded" by simp
  from run_loop_persisted [OF looped(3)] l show ?thesis by auto
qed

lemma main_results:
  assumes "main c args f p ds = (x, st)" and "load_existing_jsonl f = Inr loaded"
  shows "\<exists>new. results st = loaded @ new \<and>
           (\<forall>r\<in>set new. \<exists>t. map_of r ''task_id'' = Some (JStr t) \<and>
              JStr t \<notin> set (task_id_values loaded) \<and> t \<in> fst ` set ds)"
  using assms(1)
proof (cases rule: main_cases)
  case (load_fails e)
  with assms(2) show ?thesis by simp
next
  case (ids_fail loaded' e)
  with assms(2) show ?thesis by simp
next
  case (looped loaded')
  with assms(2) have l: "loaded' = loaded" by simp
  from run_loop_results [OF looped(3)] l show ?thesis by simp
qed

lemma main_synced:
  assumes "main c args f p ds = (x, st)" and "load_existing_jsonl f = Inr loaded"
  shows "synced st"
  using assms(1)
proof (cases rule: main_cases)
  case (load_fails e)
  with assms(2) show ?thesis by simp
next
  case (ids_fail loaded' e)
  with assms(2) show ?thesis by (simp add: synced_def)
next
  case (looped loaded')
  with assms(2) have "synced (initial_state f p loaded')" by (simp add: synced_def)
  from run_loop_synced [OF looped(3) this] show ?thesis .
qed

lemma main_attempts:
  assumes "main c args f p ds = (x, st)" and "load_existing_jsonl f = Inr loaded"
  shows "\<exists>rest. (trace st = [] \<or> pending (set (task_id_values loaded)) ds = map fst (calls (trace st)) @ rest) \<and>
           (x = None \<longrightarrow> pending (set (task_id_values loaded)) ds = map fst (calls (trace st)))"
  using assms(1)
proof (cases rule: main_cases)
  case (load_fails e)
  with assms(2) show ?thesis by simp
next
  case (ids_fail loaded' e)
  then show ?thesis by simp
next
  case (looped loaded')
  with assms(2) have l: "loaded' = loaded" by simp
  from run_loop_attempts [OF looped(3)] l show ?thesis by auto
qed

lemma pending_member: "t \<in> set (pending ids ds) \<Longrightarrow> JStr t \<notin> ids"
  by (simp add: pending_def)

lemma main_calls_pending:
  assumes "main c args f p ds = (x, st)" and "load_existing_jsonl f = Inr loaded"
    and "(t, pr) \<in> set (calls (trace st))"
  shows "JStr t \<notin> set (task_id_values loaded)"
proof -
  from main_attempts [OF assms(1,2)] obtain rest where
    r: "trace st = [] \<or> pending (set (task_id_values loaded)) ds = map fst (calls (trace st)) @ rest"
    by blast
  from assms(3) have ne: "trace st \<noteq> []" by auto
  from assms(3) have "t \<in> set (map fst (calls (trace st)))" by force
  with r ne have "t \<in> set (pending (set (task_id_values loaded)) ds)" by auto
  then show ?thesis by (rule pending_member)
qed

lemma main_skips:
  assumes "main c args f p ds = (None, st)" and "load_existing_jsonl f = Inr loaded"
    and "(t, problem) \<in> set ds" and "JStr t \<in> set (task_id_values loaded)"
  shows "PrintContinuing t \<in> set (trace st)"
  using assms(1)
proof (cases rule: main_cases)
  case (load_fails e)
  then show ?thesis by simp
next
  case (ids_fail loaded' e)
  then show ?thesis by simp
next
  case (looped loaded')
  with assms(2) have l: "loaded' = loaded" by simp
  from run_loop_skips [OF looped(3) assms(3)] assms(4) l show ?thesis by simp
qed

section \<open>The runs of the examples\<close>

lemmas eval_defs = main_def run_loop.simps iteration_def attempt_def handler_def completion_of_def
  codegen_pset_def emit_def write_jsonl_def initial_state_def exising_task_ids_def
  success_result_def error_result_def dict_display_def scenario_def human_eval_def two_tasks_def
  old_file_def Let_def

lemma main_old_file:
  "main scenario human_eval old_file 0 two_tasks =
     (None,
      \<lparr>results = [[(''task_id'', JStr ''t1''), (''completion'', JStr ''x'')], [(''note'', JStr ''n'')]],
       result = Some [(''prompt'', JStr ''p2''), (''task_id'', JStr ''t2''),
                      (''completion'', JStr ''Error encountered''),
                      (''raw_completion'', JStr ''Error encountered''),
                      (''actual_prompt'', JStr ''p2'')],
       out_file = Some [Line [(''task_id'', JStr ''t1''), (''completion'', JStr ''x'')],
                        Line [(''note'', JStr ''n'')]],
       llm_provider = 1,
       trace = [PrintContinuing ''t1'', PrintPrompt ''t2'' ''p2'', GetCompletion ''t2'' ''p2'',
                PrintError ''t2'' (OpenAIError ''timeout''),
                WriteJsonl [[(''task_id'', JStr ''t1''), (''completion'', JStr ''x'')],
                            [(''note'', JStr ''n'')]]]\<rparr>)"
  by (simp add: eval_defs)

lemma main_fresh:
  "main scenario human_eval None 0 two_tasks =
     (None,
      \<lparr>results = [[(''prompt'', JStr ''p1''), (''task_id'', JStr ''t1''),
                   (''completion'', JStr ''print(1)''),
                   (''raw_completion'', JStr ''```print(1)```''),
                   (''actual_prompt'', JStr ''p1'')]],
       result = Some [(''prompt'', JStr ''p2''), (''task_id'', JStr ''t2''),
                      (''completion'', JStr ''Error encountered''),
                      (''raw_completion'', JStr ''Error encountered''),
                      (''actual_prompt'', JStr ''p2'')],
       out_file = Some [Line [(''prompt'', JStr ''p1''), (''task_id'', JStr ''t1''),
                   (''completion'', JStr ''print(1)''),
                   (''raw_completion'', JStr ''```print(1)```''),
                   (''actual_prompt'', JStr ''p1'')]],
       llm_provider = 2,
       trace = [PrintPrompt ''t1'' ''p1'', GetCompletion ''t1'' ''p1'', PrintExtracted ''print(1)'',
                WriteJsonl [[(''prompt'', JStr ''p1''), (''task_id'', JStr ''t1''),
                   (''completion'', JStr ''print(1)''),
                   (''raw_completion'', JStr ''```print(1)```''),
                   (''actual_prompt'', JStr ''p1'')]],
                PrintPrompt ''t2'' ''p2'', GetCompletion ''t2'' ''p2'',
                PrintError ''t2'' (OpenAIError ''timeout''),
                WriteJsonl [[(''prompt'', JStr ''p1''), (''task_id'', JStr ''t1''),
                   (''completion'', JStr ''print(1)''),
                   (''raw_completion'', JStr ''```print(1)```''),
                   (''actual_prompt'', JStr ''p1'')]]]\<rparr>)"
  by (simp add: eval_defs)


lemma load_old_file:
  "load_existing_jsonl old_file =
     Inr [[(''task_id'', JStr ''t1''), (''completion'', JStr ''x'')], [(''note'', JStr ''n'')]]"
  by (simp add: old_file_def)

section \<open>The experiment loop\<close>

lemma task_id_values_iff:
  "v \<in> set (task_id_values rs) \<longleftrightarrow> (\<exists>r\<in>set rs. map_of r ''task_id'' = Some v)"
  by (induction rs) (auto split: option.splits)

text \<open>
  Claim C1. Let the results file load as \<open>loaded\<close>, and call a task id known when some
  loaded record has it as its \<open>task_id\<close>. Whatever way the run ends, no call of the
  provider's \<open>get_completion\<close> is made for a known task id; when the run ends normally
  every task of the dataset with a known id was skipped with the message of line 96; and
  the file at the end of the run loads as the loaded records, unchanged and in their order,
  followed by new records, whose task ids are not known.
\<close>

theorem resume_idempotence:
  assumes "load_existing_jsonl f = Inr loaded"
    and "main c args f p ds = (x, st)"
  shows "(\<forall>t prompt. (t, prompt) \<in> set (calls (trace st)) \<longrightarrow>
            \<not> (\<exists>r\<in>set loaded. map_of r ''task_id'' = Some (JStr t))) \<and>
         (x = None \<longrightarrow>
            (\<forall>t problem r. (t, problem) \<in> set ds \<and> r \<in> set loaded \<and>
                map_of r ''task_id'' = Some (JStr t) \<longrightarrow>
               PrintContinuing t \<in> set (trace st))) \<and>
         (\<exists>new. load_existing_jsonl (out_file st) = Inr (loaded @ new) \<and>
            (\<forall>r\<in>set new. \<exists>t. map_of r ''task_id'' = Some (JStr t) \<and>
               \<not> (\<exists>r'\<in>set loaded. map_of r' ''task_id'' = Some (JStr t))))"
proof -
  have a: "\<forall>t prompt. (t, prompt) \<in> set (calls (trace st)) \<longrightarrow>
            \<not> (\<exists>r\<in>set loaded. map_of r ''task_id'' = Some (JStr t))"
  proof (intro allI impI)
    fix t prompt
    assume "(t, prompt) \<in> set (calls (trace st))"
    from main_calls_pending [OF assms(2,1) this]
    show "\<not> (\<exists>r\<in>set loaded. map_of r ''task_id'' = Some (JStr t))"
      by (simp add: task_id_values_iff)
  qed
  have b: "x = None \<longrightarrow>
            (\<forall>t problem r. (t, problem) \<in> set ds \<and> r \<in> set loaded \<and>
                map_of r ''task_id'' = Some (JStr t) \<longrightarrow>
               PrintContinuing t \<in> set (trace st))"
  proof (intro impI allI)
    fix t problem r
    assume "x = None" and h: "(t, problem) \<in> set ds \<and> r \<in> set loaded \<and>
                map_of r ''task_id'' = Some (JStr t)"
    with assms(2) have m: "main c args f p ds = (None, st)" by simp
    from h have h1: "(t, problem) \<in> set ds" by simp
    from h have "\<exists>r\<in>set loaded. map_of r ''task_id'' = Some (JStr t)" by blast
    then have h2: "JStr t \<in> set (task_id_values loaded)" by (simp add: task_id_values_iff)
    from main_skips [OF m assms(1) h1 h2] show "PrintContinuing t \<in> set (trace st)" .
  qed
  from main_results [OF assms(2,1)] obtain new where
    n: "results st = loaded @ new"
      "\<forall>r\<in>set new. \<exists>t. map_of r ''task_id'' = Some (JStr t) \<and>
              JStr t \<notin> set (task_id_values loaded) \<and> t \<in> fst ` set ds"
    by blast
  from main_synced [OF assms(2,1)] n(1)
  have l: "load_existing_jsonl (out_file st) = Inr (loaded @ new)" by (simp add: synced_def)
  have "\<forall>r\<in>set new. \<exists>t. map_of r ''task_id'' = Some (JStr t) \<and>
               \<not> (\<exists>r'\<in>set loaded. map_of r' ''task_id'' = Some (JStr t))"
  proof
    fix r assume "r \<in> set new"
    with n(2) obtain t where t: "map_of r ''task_id'' = Some (JStr t)"
      "JStr t \<notin> set (task_id_values loaded)" by blast
    from t(2) have "\<not> (\<exists>r'\<in>set loaded. map_of r' ''task_id'' = Some (JStr t))"
      by (simp add: task_id_values_iff)
    with t(1) show "\<exists>t. map_of r ''task_id'' = Some (JStr t) \<and>
               \<not> (\<exists>r'\<in>set loaded. map_of r' ''task_id'' = Some (JStr t))" by blast
  qed
  with l have c: "\<exists>new. load_existing_jsonl (out_file st) = Inr (loaded @ new) \<and>
            (\<forall>r\<in>set new. \<exists>t. map_of r ''task_id'' = Some (JStr t) \<and>
               \<not> (\<exists>r'\<in>set loaded. map_of r' ''task_id'' = Some (JStr t)))" by blast
  from a b c show ?thesis by blast
qed

theorem resume_idempotence_witness:
  "load_existing_jsonl old_file =
     Inr [[(''task_id'', JStr ''t1''), (''completion'', JStr ''x'')], [(''note'', JStr ''n'')]] \<and>
   map_of [(''task_id'', JStr ''t1''), (''completion'', JStr ''x'')] ''task_id'' = Some (JStr ''t1'') \<and>
   fst (main scenario human_eval old_file 0 two_tasks) = None \<and>
   calls (trace (snd (main scenario human_eval old_file 0 two_tasks))) = [(''t2'', ''p2'')] \<and>
   PrintContinuing ''t1'' \<in> set (trace (snd (main scenario human_eval old_file 0 two_tasks))) \<and>
   load_existing_jsonl (out_file (snd (main scenario human_eval old_file 0 two_tasks))) =
     Inr [[(''task_id'', JStr ''t1''), (''completion'', JStr ''x'')], [(''note'', JStr ''n'')]]"
proof -
  let ?m = "main scenario human_eval old_file 0 two_tasks"
  have h2: "?m = (fst ?m, snd ?m)" by simp
  from resume_idempotence [OF load_old_file h2]
  show ?thesis by (simp add: main_old_file load_old_file)
qed

text \<open>
  Claim C4. For a task that is not skipped, whose prompt is built and whose provider call
  returns \<open>raw\<close> (and, for a code-generation problem set, whose extraction returns
  \<open>code\<close>), the iteration ends normally and appends exactly one record; its
  \<open>raw_completion\<close> is the provider's output unchanged, and its \<open>completion\<close> is
  \<open>extract_code(raw)\<close> when the problem-set name is \<open>human-eval\<close>, \<open>leetcode\<close> or
  \<open>leetcode-msft-sparks\<close> and the raw output for every other name.
\<close>

theorem extraction_gating:
  assumes "JStr task_id \<notin> ids"
    and "get_formatted_prompt c problem = Inr prompt"
    and "get_completion c (llm_provider st) prompt = (Inr raw, p')"
    and "pset args \<in> {''human-eval'', ''leetcode'', ''leetcode-msft-sparks''}
           \<longrightarrow> extract_code c raw = Inr code"
    and "iteration c args ids st (task_id, problem) = (x, st')"
  shows "x = None \<and>
         (\<exists>r. results st' = results st @ [r] \<and>
              map_of r ''raw_completion'' = Some (JStr raw) \<and>
              map_of r ''completion'' =
                Some (JStr (if pset args \<in> {''human-eval'', ''leetcode'', ''leetcode-msft-sparks''}
                            then code else raw)))"
proof -
  have comp: "completion_of c args raw =
      Inr (if pset args \<in> {''human-eval'', ''leetcode'', ''leetcode-msft-sparks''} then code else raw)"
    using assms(4) by (simp add: completion_of_def codegen_pset_iff)
  from assms(5) show ?thesis
  proof (cases rule: iteration_cases)
    case skip
    with assms(1) show ?thesis by simp
  next
    case (prompt_raises e)
    with assms(2) show ?thesis by simp
  next
    case (appended prompt' raw' p'' completion)
    with assms(2,3) comp have "prompt' = prompt" "raw' = raw"
      "completion = (if pset args \<in> {''human-eval'', ''leetcode'', ''leetcode-msft-sparks''} then code else raw)"
      by simp_all
    with appended show ?thesis by (simp add: success_result_fields)
  next
    case (caught prompt' e p'')
    with assms(2,3) comp show ?thesis by auto
  next
    case (escaped prompt' e p'')
    with assms(2,3) comp show ?thesis by auto
  qed
qed


theorem extraction_gating_witness:
  "JStr ''t1'' \<notin> ({}::jval set) \<and>
   pset human_eval \<in> {''human-eval'', ''leetcode'', ''leetcode-msft-sparks''} \<and>
   get_completion scenario (0::nat) ''p1'' = (Inr ''```print(1)```'', 1) \<and>
   extract_code scenario ''```print(1)```'' = Inr ''print(1)'' \<and>
   fst (iteration scenario human_eval {} (initial_state None 0 []) (''t1'', [(''prompt'', JStr ''p1'')])) = None \<and>
   (\<exists>r. results (snd (iteration scenario human_eval {} (initial_state None 0 [])
                 (''t1'', [(''prompt'', JStr ''p1'')]))) = [] @ [r] \<and>
        map_of r ''raw_completion'' = Some (JStr ''```print(1)```'') \<and>
        map_of r ''completion'' = Some (JStr ''print(1)''))"
proof -
  let ?st = "initial_state None (0::nat) []"
  let ?it = "iteration scenario human_eval {} ?st (''t1'', [(''prompt'', JStr ''p1'')])"
  have h1: "JStr ''t1'' \<notin> ({}::jval set)" by simp
  have h2: "get_formatted_prompt scenario [(''prompt'', JStr ''p1'')] = Inr ''p1''"
    by (simp add: scenario_def)
  have h3: "get_completion scenario (llm_provider ?st) ''p1'' = (Inr ''```print(1)```'', 1)"
    by (simp add: scenario_def)
  have h4: "pset human_eval \<in> {''human-eval'', ''leetcode'', ''leetcode-msft-sparks''}
      \<longrightarrow> extract_code scenario ''```print(1)```'' = Inr ''print(1)''"
    by (simp add: scenario_def)
  have h5: "?it = (fst ?it, snd ?it)" by simp
  have p: "pset human_eval \<in> {''human-eval'', ''leetcode'', ''leetcode-msft-sparks''}"
    by (simp add: human_eval_def)
  from extraction_gating [OF h1 h2 h3 h4 h5] p h3
  show ?thesis by (simp add: scenario_def)
qed

text \<open>
  Claim C2. When the provider call, or the code extraction of a code-generation problem set,
  raises an \<open>Exception\<close> for a task, the iteration ends normally; the variable
  \<open>result\<close> holds a record whose \<open>completion\<close> and \<open>raw_completion\<close> are the string
  \<open>Error encountered\<close>; nothing is appended to \<open>results\<close>; the one write of the
  iteration writes the records that were in memory before the task, so the file holds the
  same records as before.
\<close>

theorem failure_not_persisted:
  assumes "JStr task_id \<notin> ids"
    and "get_formatted_prompt c problem = Inr prompt"
    and "get_completion c (llm_provider st) prompt = (Inl e, p') \<or>
         (\<exists>raw. get_completion c (llm_provider st) prompt = (Inr raw, p') \<and>
                pset args \<in> {''human-eval'', ''leetcode'', ''leetcode-msft-sparks''} \<and>
                extract_code c raw = Inl e)"
    and "is_Exception e"
    and "iteration c args ids st (task_id, problem) = (x, st')"
  shows "x = None \<and>
         (\<exists>r. result st' = Some r \<and>
              map_of r ''completion'' = Some (JStr ''Error encountered'') \<and>
              map_of r ''raw_completion'' = Some (JStr ''Error encountered'')) \<and>
         results st' = results st \<and>
         out_file st' = Some (map Line (results st)) \<and>
         (\<exists>evs. trace st' = trace st @ evs \<and> writes evs = [results st]) \<and>
         (synced st \<longrightarrow> load_existing_jsonl (out_file st') = load_existing_jsonl (out_file st))"
proof -
  have fail: "get_completion c (llm_provider st) prompt = (Inl e, p') \<or>
         (\<exists>raw. get_completion c (llm_provider st) prompt = (Inr raw, p') \<and>
                completion_of c args raw = Inl e)"
    using assms(3) by (auto simp: completion_of_def codegen_pset_iff)
  from assms(5) show ?thesis
  proof (cases rule: iteration_cases)
    case skip
    with assms(1) show ?thesis by simp
  next
    case (prompt_raises e')
    with assms(2) show ?thesis by simp
  next
    case (appended prompt' raw' p'' completion)
    with assms(2) fail show ?thesis by auto
  next
    case (caught prompt' e' p'')
    have s: "synced st \<longrightarrow> load_existing_jsonl (out_file st') = load_existing_jsonl (out_file st)"
      using caught(10) by (simp add: synced_def parse_lines_map_Line)
    have r: "\<exists>r. result st' = Some r \<and>
              map_of r ''completion'' = Some (JStr ''Error encountered'') \<and>
              map_of r ''raw_completion'' = Some (JStr ''Error encountered'')"
      using caught(8) error_result_fields(1,2) by blast
    have w: "\<exists>evs. trace st' = trace st @ evs \<and> writes evs = [results st]"
      using caught(6) by simp
    from caught(5,9,10) r w s show ?thesis by blast
  next
    case (escaped prompt' e' p'')
    with assms(2,4) fail show ?thesis by auto
  qed
qed

theorem failure_not_persisted_witness:
  "is_Exception (OpenAIError ''timeout'') \<and>
   get_completion scenario (0::nat) ''p2'' = (Inl (OpenAIError ''timeout''), 1) \<and>
   synced (initial_state None (0::nat) []) \<and>
   fst (iteration scenario human_eval {} (initial_state None 0 []) (''t2'', [(''prompt'', JStr ''p2'')])) = None \<and>
   results (snd (iteration scenario human_eval {} (initial_state None 0 [])
       (''t2'', [(''prompt'', JStr ''p2'')]))) = [] \<and>
   out_file (snd (iteration scenario human_eval {} (initial_state None 0 [])
       (''t2'', [(''prompt'', JStr ''p2'')]))) = Some [] \<and>
   load_existing_jsonl (out_file (snd (iteration scenario human_eval {} (initial_state None 0 [])
       (''t2'', [(''prompt'', JStr ''p2'')])))) = Inr []"
proof -
  let ?st = "initial_state None (0::nat) []"
  let ?it = "iteration scenario human_eval {} ?st (''t2'', [(''prompt'', JStr ''p2'')])"
  have h1: "JStr ''t2'' \<notin> ({}::jval set)" by simp
  have h2: "get_formatted_prompt scenario [(''prompt'', JStr ''p2'')] = Inr ''p2''"
    by (simp add: scenario_def)
  have h3: "get_completion scenario (llm_provider ?st) ''p2'' = (Inl (OpenAIError ''timeout''), 1)"
    by (simp add: scenario_def)
  have h3': "get_completion scenario (llm_provider ?st) ''p2'' = (Inl (OpenAIError ''timeout''), 1) \<or>
         (\<exists>raw. get_completion scenario (llm_provider ?st) ''p2'' = (Inr raw, 1) \<and>
                pset human_eval \<in> {''human-eval'', ''leetcode'', ''leetcode-msft-sparks''} \<and>
                extract_code scenario raw = Inl (OpenAIError ''timeout''))"
    using h3 by simp
  have h4: "is_Exception (OpenAIError ''timeout'')" by simp
  have h5: "?it = (fst ?it, snd ?it)" by simp
  have sy: "synced ?st" by (simp add: synced_def)
  from failure_not_persisted [OF h1 h2 h3' h4 h5] sy h3
  show ?thesis by simp
qed

text \<open>
  Claim C5. An iteration over a task that is not skipped and that ends normally ends with a
  write of the whole sequence in memory (the only write of the iteration), after which the
  file is exactly that sequence; the sequence is the one before the iteration, possibly
  extended at the end. Over the whole run every sequence written starts with the loaded
  records, and the file is the last sequence written, equal to the sequence in memory (and
  untouched if nothing was written).
\<close>

theorem persistence_invariant:
  "(JStr task_id \<notin> ids \<and> iteration c args ids st0 (task_id, problem) = (None, st1) \<longrightarrow>
      out_file st1 = Some (map Line (results st1)) \<and>
      (\<exists>evs. trace st1 = trace st0 @ evs @ [WriteJsonl (results st1)] \<and> writes evs = []) \<and>
      (\<exists>new. results st1 = results st0 @ new)) \<and>
   (load_existing_jsonl f = Inr loaded \<and> main c args f p ds = (x, st) \<longrightarrow>
      (\<exists>new. results st = loaded @ new) \<and>
      list_all (\<lambda>w. take (length loaded) w = loaded) (writes (trace st)) \<and>
      (if writes (trace st) = [] then out_file st = f \<and> results st = loaded
       else out_file st = Some (map Line (results st)) \<and> last (writes (trace st)) = results st))"
proof (intro conjI impI)
  assume a: "JStr task_id \<notin> ids \<and> iteration c args ids st0 (task_id, problem) = (None, st1)"
  then have it: "iteration c args ids st0 (task_id, problem) = (None, st1)" and n: "JStr task_id \<notin> ids"
    by simp_all
  from it show "out_file st1 = Some (map Line (results st1))"
    using n by (cases rule: iteration_cases) simp_all
  from it show "\<exists>evs. trace st1 = trace st0 @ evs @ [WriteJsonl (results st1)] \<and> writes evs = []"
  proof (cases rule: iteration_cases)
    case skip
    with n show ?thesis by simp
  next
    case (prompt_raises e)
    then show ?thesis by simp
  next
    case (appended prompt raw p' completion)
    have "trace st1 = trace st0 @ [PrintPrompt task_id prompt, GetCompletion task_id prompt,
           PrintExtracted completion] @ [WriteJsonl (results st1)]"
      using appended(6,9) by simp
    moreover have "writes [PrintPrompt task_id prompt, GetCompletion task_id prompt,
           PrintExtracted completion] = []" by simp
    ultimately show ?thesis by blast
  next
    case (caught prompt e p')
    have "trace st1 = trace st0 @ [PrintPrompt task_id prompt, GetCompletion task_id prompt,
           PrintError task_id e] @ [WriteJsonl (results st1)]"
      using caught(6,9) by simp
    moreover have "writes [PrintPrompt task_id prompt, GetCompletion task_id prompt,
           PrintError task_id e] = []" by simp
    ultimately show ?thesis by blast
  next
    case (escaped prompt e p')
    then show ?thesis by simp
  qed
  from iteration_results [OF it] show "\<exists>new. results st1 = results st0 @ new" by blast
next
  assume b: "load_existing_jsonl f = Inr loaded \<and> main c args f p ds = (x, st)"
  then have l: "load_existing_jsonl f = Inr loaded" and m: "main c args f p ds = (x, st)"
    by simp_all
  from main_results [OF m l] show "\<exists>new. results st = loaded @ new" by blast
  from main_persisted [OF m l]
  show "list_all (\<lambda>w. take (length loaded) w = loaded) (writes (trace st))"
    by (simp add: persisted_def)
  from main_persisted [OF m l]
  show "if writes (trace st) = [] then out_file st = f \<and> results st = loaded
       else out_file st = Some (map Line (results st)) \<and> last (writes (trace st)) = results st"
    by (simp add: persisted_def)
qed

lemma iteration_t1:
  "iteration scenario human_eval {} (initial_state None 0 []) (''t1'', [(''prompt'', JStr ''p1'')]) =
     (None,
      \<lparr>results = [[(''prompt'', JStr ''p1''), (''task_id'', JStr ''t1''),
                   (''completion'', JStr ''print(1)''),
                   (''raw_completion'', JStr ''```print(1)```''),
                   (''actual_prompt'', JStr ''p1'')]],
       result = Some [(''prompt'', JStr ''p1''), (''task_id'', JStr ''t1''),
                   (''completion'', JStr ''print(1)''),
                   (''raw_completion'', JStr ''```print(1)```''),
                   (''actual_prompt'', JStr ''p1'')],
       out_file = Some [Line [(''prompt'', JStr ''p1''), (''task_id'', JStr ''t1''),
                   (''completion'', JStr ''print(1)''),
                   (''raw_completion'', JStr ''```print(1)```''),
                   (''actual_prompt'', JStr ''p1'')]],
       llm_provider = 1,
       trace = [PrintPrompt ''t1'' ''p1'', GetCompletion ''t1'' ''p1'', PrintExtracted ''print(1)'',
                WriteJsonl [[(''prompt'', JStr ''p1''), (''task_id'', JStr ''t1''),
                   (''completion'', JStr ''print(1)''),
                   (''raw_completion'', JStr ''```print(1)```''),
                   (''actual_prompt'', JStr ''p1'')]]]\<rparr>)"
  by (simp add: eval_defs)

theorem persistence_invariant_witness:
  "JStr ''t1'' \<notin> ({}::jval set) \<and>
   fst (iteration scenario human_eval {} (initial_state None 0 []) (''t1'', [(''prompt'', JStr ''p1'')])) = None \<and>
   out_file (snd (iteration scenario human_eval {} (initial_state None 0 [])
       (''t1'', [(''prompt'', JStr ''p1'')]))) =
     Some (map Line (results (snd (iteration scenario human_eval {} (initial_state None 0 [])
       (''t1'', [(''prompt'', JStr ''p1'')]))))) \<and>
   load_existing_jsonl None = Inr [] \<and>
   length (writes (trace (snd (main scenario human_eval None 0 two_tasks)))) = 2 \<and>
   out_file (snd (main scenario human_eval None 0 two_tasks)) =
     Some (map Line (results (snd (main scenario human_eval None 0 two_tasks)))) \<and>
   last (writes (trace (snd (main scenario human_eval None 0 two_tasks)))) =
     results (snd (main scenario human_eval None 0 two_tasks))"
proof -
  let ?it = "iteration scenario human_eval {} (initial_state None (0::nat) []) (''t1'', [(''prompt'', JStr ''p1'')])"
  let ?m = "main scenario human_eval None 0 two_tasks"
  have i: "?it = (None, snd ?it)" by (simp add: iteration_t1)
  have m: "?m = (fst ?m, snd ?m)" by simp
  have h1: "JStr ''t1'' \<notin> ({}::jval set) \<and> ?it = (None, snd ?it)" using i by simp
  have h2: "load_existing_jsonl None = Inr [] \<and> ?m = (fst ?m, snd ?m)" by simp
  from persistence_invariant [of "''t1''" "{}" scenario human_eval "initial_state None 0 []"
      "[(''prompt'', JStr ''p1'')]" "snd ?it" None "[]" 0 two_tasks "fst ?m" "snd ?m"] h1 h2
  have "out_file (snd ?it) = Some (map Line (results (snd ?it)))" by blast
  then show ?thesis by (simp add: main_fresh iteration_t1)
qed

lemma task_id_values_append:
  "task_id_values (xs @ ys) = task_id_values xs @ task_id_values ys"
  by (induction xs) (simp_all split: option.splits)

lemma task_id_values_without:
  "map_of r ''task_id'' = None \<Longrightarrow> task_id_values (rs1 @ r # rs2) = task_id_values (rs1 @ rs2)"
  by (simp add: task_id_values_append)

lemma prefix_member:
  assumes "take (length xs) w = xs" and "r \<in> set xs"
  shows "r \<in> set w"
proof -
  from assms(2) have "r \<in> set (take (length xs) w)" by (simp only: assms(1))
  then show ?thesis by (rule in_set_takeD)
qed

text \<open>
  Claim C9. A loaded record without the key \<open>task_id\<close> adds nothing to the set of known
  ids: the set built from the loaded records is the one built without that record, so the
  test of line 95 gives the same answer for every task. The record stays in \<open>results\<close>
  until the end of the run, and every sequence that the run writes starts with the loaded
  records and so contains it.
\<close>

theorem records_without_task_id:
  "(map_of r ''task_id'' = None \<longrightarrow>
      task_id_values (rs1 @ r # rs2) = task_id_values (rs1 @ rs2) \<and>
      exising_task_ids (rs1 @ r # rs2) = exising_task_ids (rs1 @ rs2)) \<and>
   (load_existing_jsonl f = Inr loaded \<and> r \<in> set loaded \<and> map_of r ''task_id'' = None \<and>
    main c args f p ds = (x, st) \<longrightarrow>
      r \<in> set (results st) \<and>
      (\<forall>w \<in> set (writes (trace st)). take (length loaded) w = loaded \<and> r \<in> set w))"
proof (intro conjI impI)
  assume n: "map_of r ''task_id'' = None"
  from task_id_values_without [OF n]
  show "task_id_values (rs1 @ r # rs2) = task_id_values (rs1 @ rs2)" .
  then show "exising_task_ids (rs1 @ r # rs2) = exising_task_ids (rs1 @ rs2)"
    by (simp add: exising_task_ids_def)
next
  assume a: "load_existing_jsonl f = Inr loaded \<and> r \<in> set loaded \<and> map_of r ''task_id'' = None \<and>
    main c args f p ds = (x, st)"
  then have l: "load_existing_jsonl f = Inr loaded" and r: "r \<in> set loaded"
    and m: "main c args f p ds = (x, st)" by simp_all
  from main_results [OF m l] obtain new where "results st = loaded @ new" by blast
  with r show "r \<in> set (results st)" by simp
  from main_persisted [OF m l]
  have "list_all (\<lambda>w. take (length loaded) w = loaded) (writes (trace st))"
    by (simp add: persisted_def)
  then have "\<forall>w \<in> set (writes (trace st)). take (length loaded) w = loaded"
    by (simp add: list_all_iff)
  with r show "\<forall>w \<in> set (writes (trace st)). take (length loaded) w = loaded \<and> r \<in> set w"
    by (blast intro: prefix_member)
qed

theorem records_without_task_id_witness:
  "map_of [(''note'', JStr ''n'')] ''task_id'' = None \<and>
   exising_task_ids ([[(''task_id'', JStr ''t1''), (''completion'', JStr ''x'')]] @ [(''note'', JStr ''n'')] # [])
     = Inr {JStr ''t1''} \<and>
   load_existing_jsonl old_file =
     Inr [[(''task_id'', JStr ''t1''), (''completion'', JStr ''x'')], [(''note'', JStr ''n'')]] \<and>
   [(''note'', JStr ''n'')] \<in> set (results (snd (main scenario human_eval old_file 0 two_tasks))) \<and>
   writes (trace (snd (main scenario human_eval old_file 0 two_tasks))) =
     [[[(''task_id'', JStr ''t1''), (''completion'', JStr ''x'')], [(''note'', JStr ''n'')]]]"
proof -
  let ?m = "main scenario human_eval old_file 0 two_tasks"
  have n: "map_of [(''note'', JStr ''n'')] ''task_id'' = None" by simp
  have h: "load_existing_jsonl old_file =
      Inr [[(''task_id'', JStr ''t1''), (''completion'', JStr ''x'')], [(''note'', JStr ''n'')]] \<and>
    [(''note'', JStr ''n'')] \<in> set [[(''task_id'', JStr ''t1''), (''completion'', JStr ''x'')], [(''note'', JStr ''n'')]] \<and>
    map_of [(''note'', JStr ''n'')] ''task_id'' = None \<and> ?m = (fst ?m, snd ?m)"
    by (simp add: load_old_file)
  from records_without_task_id [of "[(''note'', JStr ''n'')]"
      "[[(''task_id'', JStr ''t1''), (''completion'', JStr ''x'')]]" "[]" old_file
      "[[(''task_id'', JStr ''t1''), (''completion'', JStr ''x'')], [(''note'', JStr ''n'')]]"
      scenario human_eval 0 two_tasks "fst ?m" "snd ?m"] n h
  have "[(''note'', JStr ''n'')] \<in> set (results (snd ?m))" by blast
  then show ?thesis by (simp add: main_old_file load_old_file exising_task_ids_def)
qed

text \<open>
  Claim C7 fails as stated. With no results file and an empty dataset the run ends normally
  and the file is still absent: \<open>write_jsonl\<close> is called in the loop body only, so nothing
  creates the file. With a results file that does not parse the run ends with the exception
  of \<open>load_existing_jsonl\<close>, before the loop.
\<close>

theorem empty_dataset_counterexample:
  "fst (main scenario human_eval None 0 []) = None \<and>
   out_file (snd (main scenario human_eval None 0 [])) = None \<and>
   fst (main scenario human_eval (Some [Malformed ''{'']) 0 []) = Some (JSONDecodeError ''{'')"
  by (simp add: eval_defs)

text \<open>
  Claim C7, amended. If the results file loads (it is absent, or every line parses) and the
  task ids in it are hashable, a run over an empty dataset ends normally, prints nothing,
  calls neither the provider nor \<open>write_jsonl\<close>, and leaves the file as it was: an
  existing file keeps its lines and an absent file stays absent.
\<close>

theorem empty_dataset_leaves_file:
  assumes "load_existing_jsonl f = Inr loaded"
    and "list_all hashable (task_id_values loaded)"
  shows "main c args f p [] =
           (None, \<lparr>results = loaded, result = None, out_file = f, llm_provider = p, trace = []\<rparr>)"
  using assms by (simp add: main_def exising_task_ids_def initial_state_def)

theorem empty_dataset_leaves_file_witness:
  "load_existing_jsonl old_file =
     Inr [[(''task_id'', JStr ''t1''), (''completion'', JStr ''x'')], [(''note'', JStr ''n'')]] \<and>
   list_all hashable (task_id_values
     [[(''task_id'', JStr ''t1''), (''completion'', JStr ''x'')], [(''note'', JStr ''n'')]]) \<and>
   main scenario human_eval old_file 0 [] =
     (None, \<lparr>results = [[(''task_id'', JStr ''t1''), (''completion'', JStr ''x'')], [(''note'', JStr ''n'')]],
             result = None, out_file = old_file, llm_provider = 0, trace = []\<rparr>)"
proof -
  have h: "list_all hashable (task_id_values
     [[(''task_id'', JStr ''t1''), (''completion'', JStr ''x'')], [(''note'', JStr ''n'')]])"
    by simp
  from empty_dataset_leaves_file [OF load_old_file h, of scenario human_eval 0] h load_old_file
  show ?thesis by simp
qed

lemma completion_of_Inl:
  "completion_of c args raw = Inl e \<longleftrightarrow>
     pset args \<in> {''human-eval'', ''leetcode'', ''leetcode-msft-sparks''} \<and> extract_code c raw = Inl e"
  by (simp add: completion_of_def codegen_pset_iff)

lemma iteration_no_escape:
  assumes "iteration c args ids st (task_id, problem) = (x, st')"
    and "\<exists>prompt. get_formatted_prompt c problem = Inr prompt"
    and "\<forall>q prompt e. fst (get_completion c q prompt) = Inl e \<longrightarrow> is_Exception e"
    and "\<forall>raw e. extract_code c raw = Inl e \<longrightarrow> is_Exception e"
  shows "x = None"
  using assms(1)
proof (cases rule: iteration_cases)
  case (prompt_raises e)
  with assms(2) show ?thesis by simp
next
  case (escaped prompt e p')
  from escaped(4) have "is_Exception e"
  proof
    assume "get_completion c (llm_provider st) prompt = (Inl e, p')"
    then have "fst (get_completion c (llm_provider st) prompt) = Inl e" by simp
    with assms(3) show ?thesis by blast
  next
    assume "\<exists>raw. get_completion c (llm_provider st) prompt = (Inr raw, p') \<and>
        completion_of c args raw = Inl e"
    then obtain raw where "completion_of c args raw = Inl e" by blast
    then have "extract_code c raw = Inl e" by (simp add: completion_of_Inl)
    with assms(4) show ?thesis by blast
  qed
  with escaped(3) show ?thesis by simp
qed simp_all

lemma run_loop_no_escape:
  assumes "run_loop c args ids st ds = (x, st')"
    and "\<forall>t problem. (t, problem) \<in> set ds \<longrightarrow> (\<exists>prompt. get_formatted_prompt c problem = Inr prompt)"
    and "\<forall>q prompt e. fst (get_completion c q prompt) = Inl e \<longrightarrow> is_Exception e"
    and "\<forall>raw e. extract_code c raw = Inl e \<longrightarrow> is_Exception e"
  shows "x = None"
  using assms(1,2)
proof (induction ds arbitrary: st)
  case Nil
  then show ?case by simp
next
  case (Cons t ds)
  obtain task_id problem where t: "t = (task_id, problem)" by (cases t)
  obtain y st1 where it: "iteration c args ids st (task_id, problem) = (y, st1)"
    by (cases "iteration c args ids st (task_id, problem)")
  from Cons.prems(2) t have pr: "\<exists>prompt. get_formatted_prompt c problem = Inr prompt" by simp
  from iteration_no_escape [OF it pr assms(3,4)] have y: "y = None" .
  with Cons.prems(1) t it have rest: "run_loop c args ids st1 ds = (x, st')" by simp
  from Cons.prems(2) have "\<forall>t problem. (t, problem) \<in> set ds \<longrightarrow>
      (\<exists>prompt. get_formatted_prompt c problem = Inr prompt)" by simp
  from Cons.IH [OF rest this] show ?case .
qed

lemma main_attempts_prefix:
  assumes "main c args f p ds = (x, st)" and "load_existing_jsonl f = Inr loaded"
  shows "\<exists>rest. pending (set (task_id_values loaded)) ds = map fst (calls (trace st)) @ rest \<and>
           (x = None \<longrightarrow> rest = [])"
  using assms(1)
proof (cases rule: main_cases)
  case (load_fails e)
  with assms(2) show ?thesis by simp
next
  case (ids_fail loaded' e)
  then show ?thesis by simp
next
  case (looped loaded')
  with assms(2) have l: "loaded' = loaded" by simp
  from run_loop_attempts [OF looped(3)] l show ?thesis by auto
qed

text \<open>
  Claim C3 fails as stated. \<open>get_formatted_prompt\<close> is called on line 101, before the
  \<open>try\<close>: when it raises for the first task, the exception leaves the script, no error
  record is built, nothing is written and the remaining tasks are never attempted.
\<close>

theorem failure_containment_counterexample:
  "main scenario human_eval None 0 ((''t0'', []) # two_tasks) =
     (Some (Exception ''KeyError''),
      \<lparr>results = [], result = None, out_file = None, llm_provider = 0, trace = []\<rparr>)"
  by (simp add: eval_defs)

text \<open>
  Claim C3, amended. For a task that is not skipped and whose prompt is built, an
  \<open>Exception\<close> raised by \<open>get_completion\<close> or by \<open>extract_code\<close> is caught inside the
  loop: \<open>result\<close> becomes a record with the sentinel strings, and the loop goes on with
  the next task. An exception raised by \<open>get_formatted_prompt\<close> is not caught and ends the
  run. An iteration calls the provider exactly once when the task is not skipped and its
  prompt is built, whatever the outcome of the call, and not at all when the task is skipped
  or its prompt cannot be built. Over a whole run the provider calls are, in dataset order,
  one for each entry of an initial stretch of the entries whose task id no loaded record
  has, and one for each such entry when the run ends normally. When every prompt can be
  built and the provider and the extractor raise nothing but \<open>Exception\<close>s, a run whose
  results file loads (with hashable task ids) ends normally.
\<close>

theorem failure_containment:
  "(JStr task_id \<notin> ids \<and> get_formatted_prompt c problem = Inr prompt \<and> is_Exception e \<and>
    (get_completion c (llm_provider sa) prompt = (Inl e, p') \<or>
     (\<exists>raw. get_completion c (llm_provider sa) prompt = (Inr raw, p') \<and>
            pset args \<in> {''human-eval'', ''leetcode'', ''leetcode-msft-sparks''} \<and>
            extract_code c raw = Inl e)) \<and>
    iteration c args ids sa (task_id, problem) = (y, sb) \<longrightarrow>
      y = None \<and>
      (\<exists>r. result sb = Some r \<and>
           map_of r ''completion'' = Some (JStr ''Error encountered'') \<and>
           map_of r ''raw_completion'' = Some (JStr ''Error encountered'')) \<and>
      (\<exists>evs. trace sb = trace sa @ evs \<and> calls evs = [(task_id, prompt)]) \<and>
      run_loop c args ids sa ((task_id, problem) # later) = run_loop c args ids sb later) \<and>
   (JStr tid \<notin> ids \<and> get_formatted_prompt c prb = Inl err \<longrightarrow>
      run_loop c args ids sa ((tid, prb) # later) = (Some err, sa)) \<and>
   (JStr tk \<notin> ids \<and> get_formatted_prompt c pk = Inr qk \<and>
    iteration c args ids sa (tk, pk) = (yk, sk) \<longrightarrow>
      (\<exists>evs. trace sk = trace sa @ evs \<and> calls evs = [(tk, qk)])) \<and>
   ((JStr tz \<in> ids \<or> (\<exists>ez. get_formatted_prompt c pz = Inl ez)) \<and>
    iteration c args ids sa (tz, pz) = (yz, sz) \<longrightarrow>
      (\<exists>evs. trace sz = trace sa @ evs \<and> calls evs = [])) \<and>
   (load_existing_jsonl f = Inr loaded \<and> main c args f p ds = (x, st) \<longrightarrow>
      (\<exists>rest. filter (\<lambda>t. \<not> (\<exists>r\<in>set loaded. map_of r ''task_id'' = Some (JStr t)))
                  (map fst ds) =
                map fst (calls (trace st)) @ rest \<and>
              (x = None \<longrightarrow> rest = []))) \<and>
   ((\<forall>t pr. (t, pr) \<in> set ds \<longrightarrow> (\<exists>q. get_formatted_prompt c pr = Inr q)) \<and>
    (\<forall>q pr e. fst (get_completion c q pr) = Inl e \<longrightarrow> is_Exception e) \<and>
    (\<forall>raw e. extract_code c raw = Inl e \<longrightarrow> is_Exception e) \<longrightarrow>
      (load_existing_jsonl f = Inr loaded \<and>
       (\<forall>r\<in>set loaded. \<forall>v. map_of r ''task_id'' = Some v \<longrightarrow> hashable v)
         \<longrightarrow> fst (main c args f p ds) = None))"
proof (intro conjI impI)
  assume a: "JStr task_id \<notin> ids \<and> get_formatted_prompt c problem = Inr prompt \<and> is_Exception e \<and>
    (get_completion c (llm_provider sa) prompt = (Inl e, p') \<or>
     (\<exists>raw. get_completion c (llm_provider sa) prompt = (Inr raw, p') \<and>
            pset args \<in> {''human-eval'', ''leetcode'', ''leetcode-msft-sparks''} \<and>
            extract_code c raw = Inl e)) \<and>
    iteration c args ids sa (task_id, problem) = (y, sb)"
  then have n: "JStr task_id \<notin> ids" and pr: "get_formatted_prompt c problem = Inr prompt"
    and ex: "is_Exception e"
    and it: "iteration c args ids sa (task_id, problem) = (y, sb)" by simp_all
  from a have fail: "get_completion c (llm_provider sa) prompt = (Inl e, p') \<or>
     (\<exists>raw. get_completion c (llm_provider sa) prompt = (Inr raw, p') \<and>
            completion_of c args raw = Inl e)"
    by (simp add: completion_of_Inl)
  from it have all: "y = None \<and> result sb = Some (error_result problem task_id prompt) \<and>
      trace sb = trace sa @ [PrintPrompt task_id prompt, GetCompletion task_id prompt,
           PrintError task_id e, WriteJsonl (results sa)]"
  proof (cases rule: iteration_cases)
    case skip
    with n show ?thesis by simp
  next
    case (prompt_raises e')
    with pr show ?thesis by simp
  next
    case (appended prompt' raw' p'' completion)
    with pr fail show ?thesis by auto
  next
    case (caught prompt' e' p'')
    with pr fail show ?thesis by auto
  next
    case (escaped prompt' e' p'')
    with pr ex fail show ?thesis by auto
  qed
  from all show "y = None" by simp
  from all show "\<exists>r. result sb = Some r \<and>
           map_of r ''completion'' = Some (JStr ''Error encountered'') \<and>
           map_of r ''raw_completion'' = Some (JStr ''Error encountered'')"
    by (simp add: error_result_fields)
  from all show "\<exists>evs. trace sb = trace sa @ evs \<and> calls evs = [(task_id, prompt)]"
    by simp
  from all it show "run_loop c args ids sa ((task_id, problem) # later) = run_loop c args ids sb later"
    by simp
next
  assume "JStr tid \<notin> ids \<and> get_formatted_prompt c prb = Inl err"
  then show "run_loop c args ids sa ((tid, prb) # later) = (Some err, sa)"
    by (simp add: iteration_def)
next
  assume k: "JStr tk \<notin> ids \<and> get_formatted_prompt c pk = Inr qk \<and>
    iteration c args ids sa (tk, pk) = (yk, sk)"
  then have kn: "JStr tk \<notin> ids" and kp: "get_formatted_prompt c pk = Inr qk"
    and ki: "iteration c args ids sa (tk, pk) = (yk, sk)" by simp_all
  from ki have "trace sk = trace sa @ drop (length (trace sa)) (trace sk) \<and>
      calls (drop (length (trace sa)) (trace sk)) = [(tk, qk)]"
  proof (cases rule: iteration_cases)
    case skip
    with kn show ?thesis by simp
  next
    case (prompt_raises e')
    with kp show ?thesis by simp
  next
    case (appended prompt' raw' p'' completion)
    with kp show ?thesis by simp
  next
    case (caught prompt' e' p'')
    with kp show ?thesis by simp
  next
    case (escaped prompt' e' p'')
    with kp show ?thesis by simp
  qed
  then show "\<exists>evs. trace sk = trace sa @ evs \<and> calls evs = [(tk, qk)]" by blast
next
  assume z: "(JStr tz \<in> ids \<or> (\<exists>ez. get_formatted_prompt c pz = Inl ez)) \<and>
    iteration c args ids sa (tz, pz) = (yz, sz)"
  then have zc: "JStr tz \<in> ids \<or> (\<exists>ez. get_formatted_prompt c pz = Inl ez)"
    and zi: "iteration c args ids sa (tz, pz) = (yz, sz)" by simp_all
  from zi have "trace sz = trace sa @ drop (length (trace sa)) (trace sz) \<and>
      calls (drop (length (trace sa)) (trace sz)) = []"
  proof (cases rule: iteration_cases)
    case skip
    then show ?thesis by simp
  next
    case (prompt_raises e')
    then show ?thesis by simp
  next
    case (appended prompt' raw' p'' completion)
    with zc show ?thesis by auto
  next
    case (caught prompt' e' p'')
    with zc show ?thesis by auto
  next
    case (escaped prompt' e' p'')
    with zc show ?thesis by auto
  qed
  then show "\<exists>evs. trace sz = trace sa @ evs \<and> calls evs = []" by blast
next
  assume "load_existing_jsonl f = Inr loaded \<and> main c args f p ds = (x, st)"
  then have l: "load_existing_jsonl f = Inr loaded" and m: "main c args f p ds = (x, st)"
    by simp_all
  have eq: "(\<lambda>t. \<not> (\<exists>r\<in>set loaded. map_of r ''task_id'' = Some (JStr t))) =
      (\<lambda>t. JStr t \<notin> set (task_id_values loaded))"
    by (simp add: task_id_values_iff)
  from main_attempts_prefix [OF m l]
  show "\<exists>rest. filter (\<lambda>t. \<not> (\<exists>r\<in>set loaded. map_of r ''task_id'' = Some (JStr t)))
                  (map fst ds) =
                map fst (calls (trace st)) @ rest \<and> (x = None \<longrightarrow> rest = [])"
    by (simp only: eq pending_def)
next
  assume u: "(\<forall>t pr. (t, pr) \<in> set ds \<longrightarrow> (\<exists>q. get_formatted_prompt c pr = Inr q)) \<and>
    (\<forall>q pr e. fst (get_completion c q pr) = Inl e \<longrightarrow> is_Exception e) \<and>
    (\<forall>raw e. extract_code c raw = Inl e \<longrightarrow> is_Exception e)"
  assume s0: "load_existing_jsonl f = Inr loaded \<and>
       (\<forall>r\<in>set loaded. \<forall>v. map_of r ''task_id'' = Some v \<longrightarrow> hashable v)"
  then have "\<forall>v\<in>set (task_id_values loaded). hashable v"
    by (auto simp: task_id_values_iff)
  with s0 have s: "load_existing_jsonl f = Inr loaded \<and> list_all hashable (task_id_values loaded)"
    by (simp add: list_all_iff)
  obtain x' st' where m: "main c args f p ds = (x', st')" by (cases "main c args f p ds")
  from m have "x' = None"
  proof (cases rule: main_cases)
    case (load_fails e')
    with s show ?thesis by simp
  next
    case (ids_fail loaded' e')
    with s show ?thesis by (simp add: exising_task_ids_def)
  next
    case (looped loaded')
    from u have u1: "\<forall>t pr. (t, pr) \<in> set ds \<longrightarrow> (\<exists>q. get_formatted_prompt c pr = Inr q)"
      and u2: "\<forall>q pr e. fst (get_completion c q pr) = Inl e \<longrightarrow> is_Exception e"
      and u3: "\<forall>raw e. extract_code c raw = Inl e \<longrightarrow> is_Exception e" by blast+
    from run_loop_no_escape [OF looped(3) u1 u2 u3] show ?thesis .
  qed
  with m show "fst (main c args f p ds) = None" by simp
qed

lemma scenario_prompts:
  "\<forall>t pr. (t, pr) \<in> set two_tasks \<longrightarrow> (\<exists>q. get_formatted_prompt scenario pr = Inr q)"
  by (simp add: two_tasks_def scenario_def)

lemma scenario_provider_raises:
  "\<forall>q pr e. fst (get_completion scenario q pr) = Inl e \<longrightarrow> is_Exception e"
  by (simp add: scenario_def)

lemma scenario_extract_total:
  "\<forall>raw e. extract_code scenario raw = Inl e \<longrightarrow> is_Exception e"
  by (simp add: scenario_def)

theorem failure_containment_witness:
  "is_Exception (OpenAIError ''timeout'') \<and>
   get_completion scenario (0::nat) ''p2'' = (Inl (OpenAIError ''timeout''), 1) \<and>
   fst (iteration scenario human_eval {} (initial_state None 0 [])
          (''t2'', [(''prompt'', JStr ''p2'')])) = None \<and>
   get_formatted_prompt scenario [] = Inl (Exception ''KeyError'') \<and>
   run_loop scenario human_eval {} (initial_state None 0 []) ((''t0'', []) # two_tasks) =
     (Some (Exception ''KeyError''), initial_state None 0 []) \<and>
   calls (trace (snd (iteration scenario human_eval {} (initial_state None 0 [])
          (''t1'', [(''prompt'', JStr ''p1'')])))) = [(''t1'', ''p1'')] \<and>
   calls (trace (snd (iteration scenario human_eval {} (initial_state None 0 [])
          (''t0'', [])))) = [] \<and>
   load_existing_jsonl None = Inr [] \<and>
   map fst (calls (trace (snd (main scenario human_eval None 0 two_tasks)))) = [''t1'', ''t2''] \<and>
   fst (main scenario human_eval None 0 two_tasks) = None"
proof -
  let ?ik = "iteration scenario human_eval {} (initial_state None (0::nat) [])
      (''t1'', [(''prompt'', JStr ''p1'')])"
  let ?iz = "iteration scenario human_eval {} (initial_state None (0::nat) []) (''t0'', [])"
  let ?st0 = "initial_state None (0::nat) []"
  let ?it = "iteration scenario human_eval {} ?st0 (''t2'', [(''prompt'', JStr ''p2'')])"
  let ?m = "main scenario human_eval None 0 two_tasks"
  note fc = failure_containment [where c = scenario and args = human_eval and ids = "{}"
      and task_id = "''t2''" and problem = "[(''prompt'', JStr ''p2'')]" and prompt = "''p2''"
      and e = "OpenAIError ''timeout''" and sa = ?st0 and p' = 1 and y = "fst ?it"
      and sb = "snd ?it" and later = two_tasks
      and tid = "''t0''" and prb = "[]" and err = "Exception ''KeyError''"
      and tk = "''t1''" and pk = "[(''prompt'', JStr ''p1'')]" and qk = "''p1''"
      and yk = "fst ?ik" and sk = "snd ?ik"
      and tz = "''t0''" and pz = "[]" and yz = "fst ?iz" and sz = "snd ?iz"
      and f = None and loaded = "[]" and p = 0 and ds = two_tasks and x = "fst ?m" and st = "snd ?m"]
  have g: "get_completion scenario (0::nat) ''p2'' = (Inl (OpenAIError ''timeout''), 1)"
    by (simp add: scenario_def)
  have h1: "JStr ''t2'' \<notin> ({}::jval set) \<and>
      get_formatted_prompt scenario [(''prompt'', JStr ''p2'')] = Inr ''p2'' \<and>
      is_Exception (OpenAIError ''timeout'') \<and>
      (get_completion scenario (llm_provider ?st0) ''p2'' = (Inl (OpenAIError ''timeout''), 1) \<or>
       (\<exists>raw. get_completion scenario (llm_provider ?st0) ''p2'' = (Inr raw, 1) \<and>
          pset human_eval \<in> {''human-eval'', ''leetcode'', ''leetcode-msft-sparks''} \<and>
          extract_code scenario raw = Inl (OpenAIError ''timeout''))) \<and>
      ?it = (fst ?it, snd ?it)"
    using g by (simp add: scenario_def)
  have h2: "JStr ''t0'' \<notin> ({}::jval set) \<and>
      get_formatted_prompt scenario [] = Inl (Exception ''KeyError'')"
    by (simp add: scenario_def)
  have h3: "load_existing_jsonl None = Inr [] \<and> ?m = (fst ?m, snd ?m)" by simp
  have h4: "load_existing_jsonl None = Inr [] \<and>
      (\<forall>r\<in>set ([]::jobj list). \<forall>v. map_of r ''task_id'' = Some v \<longrightarrow> hashable v)" by simp
  have h5: "JStr ''t1'' \<notin> ({}::jval set) \<and>
      get_formatted_prompt scenario [(''prompt'', JStr ''p1'')] = Inr ''p1'' \<and>
      ?ik = (fst ?ik, snd ?ik)"
    by (simp add: scenario_def)
  have h6: "(JStr ''t0'' \<in> ({}::jval set) \<or> (\<exists>ez. get_formatted_prompt scenario [] = Inl ez)) \<and>
      ?iz = (fst ?iz, snd ?iz)"
    by (simp add: scenario_def)
  from fc h5 have c5: "\<exists>evs. trace (snd ?ik) = trace ?st0 @ evs \<and> calls evs = [(''t1'', ''p1'')]"
    by blast
  from fc h6 have c6: "\<exists>evs. trace (snd ?iz) = trace ?st0 @ evs \<and> calls evs = []"
    by blast
  from c5 have c5': "calls (trace (snd ?ik)) = [(''t1'', ''p1'')]" by auto
  from c6 have c6': "calls (trace (snd ?iz)) = []" by auto
  from fc h1 have c1: "fst ?it = None" by blast
  from fc h2 have c2: "run_loop scenario human_eval {} ?st0 ((''t0'', []) # two_tasks) =
      (Some (Exception ''KeyError''), ?st0)" by blast
  from fc scenario_prompts scenario_provider_raises scenario_extract_total h4
  have c4: "fst ?m = None" by blast
  from fc h3 c4 have c3: "filter (\<lambda>t. \<not> (\<exists>r\<in>set ([]::jobj list). map_of r ''task_id'' = Some (JStr t)))
        (map fst two_tasks) =
      map fst (calls (trace (snd ?m)))" by auto
  have c3': "map fst (calls (trace (snd ?m))) = [''t1'', ''t2'']"
    using c3 by (simp add: two_tasks_def)
  from c1 c2 c3' c4 c5' c6' g h2 show ?thesis by simp
qed

section \<open>The output path\<close>








lemma base_file_name_flag [simp]:
  "base_file_name c (args\<lparr>py_interpreter := b\<rparr>) version = base_file_name c args version"
  unfolding base_file_name_def
  by (intro arg_cong [where f = "format (OUTPUT_FILE_NAME c)"] ext) (simp split: field.split)








section \<open>The local model\<close>

lemma init_fields:
  assumes "HuggingFaceWizardModel_init rt name q t s arg = Inr self"
  shows "device self = (if cuda_is_available rt then ''cuda'' else ''cpu'')"
    and "HuggingFaceWizardModel.max_new_tokens self = or_int arg MAX_NEW_TOKENS"
    and "HuggingFaceWizardModel.temperature self = t"
    and "LlamaTokenizer_from_pretrained rt name (getenv_default (getenv_HF_TOKEN rt))
           (quantization_to_kwargs rt q) = Inr (tokenizer self)"
    and "LlamaForCausalLM_from_pretrained rt name
           (if q = float16 then torch_float16 else torch_bfloat16)
           (getenv_default (getenv_HF_TOKEN rt)) = Inr (HuggingFaceWizardModel.model self)"
  using assms
  by (auto simp: HuggingFaceWizardModel_init_def Let_def split: sum.splits)





text \<open>
  Claim C10. When construction succeeds, a falsy \<open>max_new_tokens\<close> argument (\<open>None\<close>, which
  is also the omitted argument, or 0) leaves \<open>self.max_new_tokens\<close> at the class default
  384; a nonzero argument is kept as it is.
\<close>

theorem max_new_tokens_falsy_default:
  assumes "HuggingFaceWizardModel_init rt name q t s arg = Inr self"
  shows "(arg = None \<or> arg = Some 0 \<longrightarrow> HuggingFaceWizardModel.max_new_tokens self = 384) \<and>
         (\<forall>n. arg = Some n \<and> n \<noteq> 0 \<longrightarrow> HuggingFaceWizardModel.max_new_tokens self = n) \<and>
         MAX_NEW_TOKENS = 384"
  using init_fields(2) [OF assms] by (auto simp: MAX_NEW_TOKENS_def)

theorem max_new_tokens_falsy_default_witness:
  "HuggingFaceWizardModel_init example_runtime ''wizard'' float16 0.7 False (Some 0) =
     Inr example_wizard \<and>
   HuggingFaceWizardModel.max_new_tokens example_wizard = 384"
  using max_new_tokens_falsy_default [of example_runtime "''wizard''" float16 "0.7" False "Some 0"
      example_wizard]
  by (simp add: HuggingFaceWizardModel_init_def example_runtime_def example_wizard_def
      MAX_NEW_TOKENS_def)

end
